theory Spec2Isabelle
  imports Complex_Main "HOL-Library.Multiset" "HOL-Library.Sublist"
    "HOL-Library.List_Lexorder" "HOL-Library.Char_ord"
begin

section \<open>Python values shared by the notebooks\<close>

text \<open>
  The notebooks are Python. Exceptions are values of \<open>pyerr\<close>; a function that may raise
  returns \<open>pyerr + 'a\<close> with \<open>Inl\<close> for the exception. The constructors are the exception
  classes that the modelled code or the library calls it makes can raise.
\<close>

datatype pyerr =
    RuntimeError string
  | ValueError string
  | TypeError string
  | KeyError string
  | IndexError
  | LinAlgError string

section \<open>xesmf-ohu.ipynb: splitting the catalog keys\<close>

text \<open>
  Python's \<^verbatim>\<open>sub in item\<close> on strings: \<open>sub\<close> occurs as a contiguous run in \<open>item\<close>.
\<close>

fun contains_str :: "string \<Rightarrow> string \<Rightarrow> bool" where
  "contains_str sub [] = (sub = [])"
| "contains_str sub (c # cs) = (prefix sub (c # cs) \<or> contains_str sub cs)"

text \<open>
  \<^verbatim>\<open>
  def sorted_split_list(a_list):
      c_list = []
      e_list = []
      for item in a_list:
          if 'piControl' in item:
              c_list.append(item)
          elif '1pctCO2' in item:
              e_list.append(item)
          else: print('Could not find experiment name in key:'+item)
      return sorted(c_list), sorted(e_list)
  \<close>
  The loop carries the two lists and the printed lines. \<^verbatim>\<open>sorted\<close> on strings is the
  lexicographic order on characters, which is the order of \<open>string\<close> here.
\<close>

fun split_loop ::
  "string list \<Rightarrow> string list \<Rightarrow> string list \<Rightarrow> string list
     \<Rightarrow> string list \<times> string list \<times> string list" where
  "split_loop [] c_list e_list out = (c_list, e_list, out)"
| "split_loop (item # rest) c_list e_list out =
     (if contains_str ''piControl'' item then split_loop rest (c_list @ [item]) e_list out
      else if contains_str ''1pctCO2'' item then split_loop rest c_list (e_list @ [item]) out
      else split_loop rest c_list e_list
             (out @ [''Could not find experiment name in key:'' @ item]))"

definition sorted_split_list :: "string list \<Rightarrow> (string list \<times> string list) \<times> string list" where
  "sorted_split_list a_list =
     (case split_loop a_list [] [] [] of
        (c_list, e_list, out) \<Rightarrow> ((sort c_list, sort e_list), out))"


section \<open>xesmf-ohu.ipynb: the regridding loop\<close>

text \<open>
  \<^verbatim>\<open>str.split(sep)\<close> for a one-character separator: the pieces between the
  separators, at least one piece. \<^verbatim>\<open>xs[i]\<close> for \<open>i \<ge> 0\<close> raises IndexError out of range.
\<close>

fun split_on :: "char \<Rightarrow> string \<Rightarrow> string list" where
  "split_on sep [] = [[]]"
| "split_on sep (c # cs) =
     (if c = sep then [] # split_on sep cs
      else (case split_on sep cs of
              [] \<Rightarrow> [[c]]
            | p # ps \<Rightarrow> (c # p) # ps))"

definition py_index :: "'a list \<Rightarrow> nat \<Rightarrow> pyerr + 'a" where
  "py_index xs i = (if i < length xs then Inr (xs ! i) else Inl IndexError)"

text \<open>\<^verbatim>\<open>str(n)\<close> for a count: its decimal digits.\<close>

fun str_nat :: "nat \<Rightarrow> string" where
  "str_nat n =
     (if n < 10 then [''0123456789'' ! n]
      else str_nat (n div 10) @ [''0123456789'' ! (n mod 10)])"

text \<open>
  \<^verbatim>\<open>
  ds_regrid_dict = dict()
  success_count = 0
  model_count = 0

  for ctrl_key, expr_key in zip(ctrl_keys, expr_keys):
      model = ctrl_key.split('.')[2]
      try:
          ds_tcr = get_tcr(ctrl_key=ctrl_key, expr_key=expr_key)
          ds_tcr_hfds_regridded = regrid(ds_tcr, rg_ds, method='nearest_s2d').hfds
      except Exception as e:
          print('Failed to regrid '+model+': '+str(e))
      else:
          ds_regrid_dict[model] = ds_tcr_hfds_regridded
          print(model+' regridded and added to dictionary')
          success_count += 1
      finally:
          model_count += 1

  print('-'*40+'\n| '+str(success_count)+'/'+str(model_count)+' models successfully regridded! |\n'+'-'*40)
  \<close>
  The body of the \<^verbatim>\<open>try\<close> calls the dataset dictionary and the external regridder; it is
  the parameter \<open>attempt\<close>, which returns the regridded field or the text \<^verbatim>\<open>str(e)\<close> of
  the \<^verbatim>\<open>Exception\<close> it raised. The subscript \<^verbatim>\<open>[2]\<close> stands before the \<^verbatim>\<open>try\<close>, so its
  IndexError leaves the loop.
\<close>

record 'f regrid_state =
  ds_regrid_dict :: "string \<rightharpoonup> 'f"
  success_count :: nat
  model_count :: nat
  printed :: "string list"

definition regrid_init :: "'f regrid_state" where
  "regrid_init = \<lparr>ds_regrid_dict = Map.empty, success_count = 0, model_count = 0, printed = []\<rparr>"

definition failed_line :: "string \<Rightarrow> string \<Rightarrow> string" where
  "failed_line model msg = ''Failed to regrid '' @ model @ '': '' @ msg"

definition added_line :: "string \<Rightarrow> string" where
  "added_line model = model @ '' regridded and added to dictionary''"

definition summary_line :: "nat \<Rightarrow> nat \<Rightarrow> string" where
  "summary_line s m =
     replicate 40 CHR ''-'' @ [CHR 0x0A] @ ''| '' @ str_nat s @ ''/'' @ str_nat m
       @ '' models successfully regridded! |'' @ [CHR 0x0A] @ replicate 40 CHR ''-''"

definition regrid_step ::
  "(string \<Rightarrow> string \<Rightarrow> string + 'f) \<Rightarrow> 'f regrid_state \<Rightarrow> string \<times> string
     \<Rightarrow> pyerr + 'f regrid_state" where
  "regrid_step attempt st keys =
     (case keys of (ctrl_key, expr_key) \<Rightarrow>
        (case py_index (split_on CHR ''.'' ctrl_key) 2 of
           Inl e \<Rightarrow> Inl e
         | Inr model \<Rightarrow>
             (case attempt ctrl_key expr_key of
                Inl msg \<Rightarrow>
                  Inr (st\<lparr>printed := printed st @ [failed_line model msg],
                          model_count := model_count st + 1\<rparr>)
              | Inr field \<Rightarrow>
                  Inr (st\<lparr>ds_regrid_dict := (ds_regrid_dict st)(model \<mapsto> field),
                          printed := printed st @ [added_line model],
                          success_count := success_count st + 1,
                          model_count := model_count st + 1\<rparr>))))"

fun regrid_loop ::
  "(string \<Rightarrow> string \<Rightarrow> string + 'f) \<Rightarrow> (string \<times> string) list \<Rightarrow> 'f regrid_state
     \<Rightarrow> pyerr + 'f regrid_state" where
  "regrid_loop attempt [] st = Inr st"
| "regrid_loop attempt (keys # rest) st =
     (case regrid_step attempt st keys of
        Inl e \<Rightarrow> Inl e
      | Inr st' \<Rightarrow> regrid_loop attempt rest st')"

definition regrid_batch ::
  "(string \<Rightarrow> string \<Rightarrow> string + 'f) \<Rightarrow> string list \<Rightarrow> string list
     \<Rightarrow> pyerr + 'f regrid_state" where
  "regrid_batch attempt ctrl_keys expr_keys =
     (case regrid_loop attempt (zip ctrl_keys expr_keys) regrid_init of
        Inl e \<Rightarrow> Inl e
      | Inr st \<Rightarrow>
          Inr (st\<lparr>printed := printed st
                     @ [summary_line (success_count st) (model_count st)]\<rparr>))"

text \<open>The model name of a pair and the line the loop prints for it.\<close>

definition model_of :: "string \<Rightarrow> string" where
  "model_of ctrl_key = split_on CHR ''.'' ctrl_key ! 2"

definition line_of :: "(string \<Rightarrow> string \<Rightarrow> string + 'f) \<Rightarrow> string \<times> string \<Rightarrow> string" where
  "line_of attempt keys =
     (case attempt (fst keys) (snd keys) of
        Inl msg \<Rightarrow> failed_line (model_of (fst keys)) msg
      | Inr field \<Rightarrow> added_line (model_of (fst keys)))"

definition succeeded :: "(string \<Rightarrow> string \<Rightarrow> string + 'f) \<Rightarrow> string \<times> string \<Rightarrow> bool" where
  "succeeded attempt keys = (case attempt (fst keys) (snd keys) of Inl msg \<Rightarrow> False | Inr field \<Rightarrow> True)"

definition well_keyed :: "string \<Rightarrow> bool" where
  "well_keyed ctrl_key = (2 < length (split_on CHR ''.'' ctrl_key))"


section \<open>Arrays of floating-point values\<close>

text \<open>
  A float is a real number or the missing marker NaN. In the means and the weights the
  arithmetic on the finite values is exact real arithmetic; the rounding of the division
  in the sensitivity estimate is modelled there. A division by zero raises nothing in
  numpy and gives a value that is not finite; \<open>fl_div\<close> returns \<open>NaN\<close> for it.
  \<^verbatim>\<open>mean\<close> of no values is NaN; xarray's \<^verbatim>\<open>mean\<close> skips the missing values.
\<close>

datatype fl = NaN | Fin real

fun fl_mul :: "fl \<Rightarrow> fl \<Rightarrow> fl" where
  "fl_mul (Fin a) (Fin b) = Fin (a * b)"
| "fl_mul NaN b = NaN"
| "fl_mul a NaN = NaN"

definition fl_div :: "real \<Rightarrow> real \<Rightarrow> fl" where
  "fl_div b a = (if a = 0 then NaN else Fin (b / a))"

fun finite_vals :: "fl list \<Rightarrow> real list" where
  "finite_vals [] = []"
| "finite_vals (NaN # vs) = finite_vals vs"
| "finite_vals (Fin x # vs) = x # finite_vals vs"

definition mean_real :: "real list \<Rightarrow> fl" where
  "mean_real xs = (if xs = [] then NaN else Fin (sum_list xs / real (length xs)))"

definition nanmean :: "fl list \<Rightarrow> fl" where
  "nanmean vs = mean_real (finite_vals vs)"

section \<open>Datasets\<close>

text \<open>
  A dataset as the notebooks use it: one data variable over named dimensions, the
  numeric dimension coordinates (\<^verbatim>\<open>lat\<close>, \<^verbatim>\<open>lon\<close>, ...) by name, and the \<^verbatim>\<open>time\<close>
  coordinate as calendar dates. The variable is read at an index tuple, one index per
  dimension.
\<close>

record timestamp =
  ts_year :: int
  ts_month :: nat
  ts_day :: nat

record dataset =
  coords :: "(string \<times> real list) list"
  time :: "timestamp list"
  dims :: "string list"
  shape :: "nat list"
  data_at :: "nat list \<Rightarrow> fl"

definition size_of :: "dataset \<Rightarrow> string \<Rightarrow> nat option" where
  "size_of ds d = map_of (zip (dims ds) (shape ds)) d"

text \<open>
  The datasets the model is about: a size for every dimension, no dimension twice,
  every numeric coordinate is the coordinate of a dimension and has its length, and so
  has the time coordinate on the dimension \<^verbatim>\<open>time\<close>.
\<close>

definition wf_dataset :: "dataset \<Rightarrow> bool" where
  "wf_dataset ds \<longleftrightarrow>
     length (shape ds) = length (dims ds) \<and> distinct (dims ds)
     \<and> distinct (map fst (coords ds))
     \<and> list_all (\<lambda>c. size_of ds (fst c) = Some (length (snd c))) (coords ds)
     \<and> ''time'' \<notin> fst ` set (coords ds)
     \<and> (''time'' \<in> set (dims ds) \<longrightarrow> size_of ds ''time'' = Some (length (time ds)))"

section \<open>global_mean (both notebooks)\<close>

text \<open>
  \<^verbatim>\<open>
  def get_lat_name(ds):
      for lat_name in ['lat', 'latitude']:
          if lat_name in ds.coords:
              return lat_name
      raise RuntimeError("Couldn't find a latitude coordinate")
  \<close>
\<close>

definition no_lat_message :: string where
  "no_lat_message = ''Couldn'' @ [CHR 0x27] @ ''t find a latitude coordinate''"

definition get_lat_name :: "dataset \<Rightarrow> pyerr + string" where
  "get_lat_name ds =
     (case find (\<lambda>lat_name. lat_name \<in> fst ` set (coords ds)) [''lat'', ''latitude''] of
        Some lat_name \<Rightarrow> Inr lat_name
      | None \<Rightarrow> Inl (RuntimeError no_lat_message))"

text \<open>
  \<^verbatim>\<open>
  def global_mean(ds):
      lat = ds[get_lat_name(ds)]
      weight = np.cos(np.deg2rad(lat))
      weight /= weight.mean()
      other_dims = set(ds.dims) - {'time'}
      return (ds * weight).mean(other_dims)
  \<close>
  The product broadcasts the weight along the latitude dimension; the mean over a set of
  dimensions is, for each index of the dimensions that stay, the mean over all index
  tuples that agree with it there, missing values skipped. The coordinates of the
  dimensions averaged over go with them.
\<close>

definition deg2rad :: "real \<Rightarrow> real" where
  "deg2rad x = x * (pi / 180)"

definition lat_weights :: "real list \<Rightarrow> fl list" where
  "lat_weights lat =
     (let weight = map (\<lambda>x. cos (deg2rad x)) lat in
      case mean_real weight of
        NaN \<Rightarrow> map (\<lambda>w. NaN) weight
      | Fin m \<Rightarrow> map (\<lambda>w. fl_div w m) weight)"

definition axis_of :: "string \<Rightarrow> string list \<Rightarrow> nat" where
  "axis_of d ds = length (takeWhile (\<lambda>x. x \<noteq> d) ds)"

definition times_weight :: "string \<Rightarrow> fl list \<Rightarrow> dataset \<Rightarrow> dataset" where
  "times_weight lat_name weight ds =
     ds\<lparr>data_at := (\<lambda>ix. fl_mul (data_at ds ix) (weight ! (ix ! axis_of lat_name (dims ds))))\<rparr>"

definition all_indices :: "nat list \<Rightarrow> nat list list" where
  "all_indices shp = product_lists (map (\<lambda>n. [0..<n]) shp)"

definition kept_axes :: "string set \<Rightarrow> dataset \<Rightarrow> nat list" where
  "kept_axes other ds = filter (\<lambda>i. dims ds ! i \<notin> other) [0..<length (dims ds)]"

definition mean_over :: "string set \<Rightarrow> dataset \<Rightarrow> dataset" where
  "mean_over other ds =
     ds\<lparr>coords := filter (\<lambda>c. fst c \<notin> other) (coords ds),
        dims := map (\<lambda>i. dims ds ! i) (kept_axes other ds),
        shape := map (\<lambda>i. shape ds ! i) (kept_axes other ds),
        data_at := (\<lambda>kx. nanmean (map (data_at ds)
                      (filter (\<lambda>ix. map (\<lambda>i. ix ! i) (kept_axes other ds) = kx)
                         (all_indices (shape ds)))))\<rparr>"

definition global_mean :: "dataset \<Rightarrow> pyerr + dataset" where
  "global_mean ds =
     (case get_lat_name ds of
        Inl e \<Rightarrow> Inl e
      | Inr lat_name \<Rightarrow>
          (case map_of (coords ds) lat_name of
             None \<Rightarrow> Inl (KeyError lat_name)
           | Some lat \<Rightarrow>
               Inr (mean_over (set (dims ds) - {''time''})
                      (times_weight lat_name (lat_weights lat) ds))))"


section \<open>The alignment loop (ecs-cmip6.ipynb and the surface temperature notebook)\<close>

text \<open>
  The year coordinate. ecs-cmip6.ipynb:
  \<^verbatim>\<open>ds.coords['year'] = ds.time.dt.year - ds.time.dt.year[0]\<close>
  and the surface temperature notebook:
  \<^verbatim>\<open>ds.coords['year'] = ds.time.dt.year\<close>
  The subscript \<^verbatim>\<open>[0]\<close> raises IndexError on an empty time axis. The assignment gives
  the dataset a coordinate \<^verbatim>\<open>year\<close> along the time dimension, one label for each date
  (a coordinate of that name it had before is replaced): the result is the dataset
  together with its year labels.
\<close>

record dataset_y =
  ds_of :: dataset
  year_coord :: "int list"

definition rebase_ecs :: "dataset \<Rightarrow> pyerr + dataset_y" where
  "rebase_ecs ds =
     (case map ts_year (time ds) of
        [] \<Rightarrow> Inl IndexError
      | y0 # ys \<Rightarrow> Inr \<lparr>ds_of = ds, year_coord = map (\<lambda>y. y - y0) (y0 # ys)\<rparr>)"

definition rebase_gmst :: "dataset \<Rightarrow> pyerr + dataset_y" where
  "rebase_gmst ds = Inr \<lparr>ds_of = ds, year_coord = map ts_year (time ds)\<rparr>"

text \<open>
  \<^verbatim>\<open>.pipe(global_mean).swap_dims({'time': 'year'}).drop_vars('time')\<close>: the mean over the
  other dimensions keeps the coordinates along the time dimension, the year labels among
  them; then the year coordinate becomes the index of the time dimension and the dates
  are removed. After \<open>global_mean\<close> the variable has the time dimension only, and the
  result is a series, the year labels with one value each; without a time dimension
  \<^verbatim>\<open>swap_dims\<close> raises ValueError.
\<close>

record series =
  syear :: "real list"
  sval :: "fl list"

definition swap_dims_drop :: "dataset_y \<Rightarrow> pyerr + series" where
  "swap_dims_drop dy =
     (if dims (ds_of dy) \<noteq> [''time'']
      then Inl (ValueError ''cannot swap from dimension time'')
      else Inr \<lparr>syear = map real_of_int (year_coord dy),
                sval = map (\<lambda>i. data_at (ds_of dy) [i]) [0..<length (time (ds_of dy))]\<rparr>)"

text \<open>
  \<^verbatim>\<open>.coarsen(year=12).mean()\<close>: xarray's \<^verbatim>\<open>coarsen\<close> has \<^verbatim>\<open>boundary='exact'\<close> by
  default and then raises ValueError when the length is not a multiple of the window.
  Otherwise each block of 12 consecutive values becomes its mean (missing values
  skipped), and each block of 12 labels becomes its mean (\<^verbatim>\<open>coord_func='mean'\<close>).
\<close>

function chunks :: "nat \<Rightarrow> 'a list \<Rightarrow> 'a list list" where
  "chunks k xs = (if k = 0 \<or> xs = [] then [] else take k xs # chunks k (drop k xs))"
  by pat_completeness auto
termination
  by (relation "measure (\<lambda>(k, xs). length xs)") auto

definition block_mean :: "real list \<Rightarrow> real" where
  "block_mean b = sum_list b / real (length b)"

definition coarsen_mean :: "nat \<Rightarrow> series \<Rightarrow> pyerr + series" where
  "coarsen_mean window s =
     (if length (sval s) mod window \<noteq> 0
      then Inl (ValueError ''Could not coarsen a dimension with boundary=exact'')
      else Inr \<lparr>syear = map block_mean (chunks window (syear s)),
                sval = map nanmean (chunks window (sval s))\<rparr>)"

definition then_do :: "pyerr + 'a \<Rightarrow> ('a \<Rightarrow> pyerr + 'b) \<Rightarrow> pyerr + 'b" where
  "then_do r f = (case r of Inl e \<Rightarrow> Inl e | Inr x \<Rightarrow> f x)"

fun traverse :: "('a \<Rightarrow> pyerr + 'b) \<Rightarrow> 'a list \<Rightarrow> pyerr + 'b list" where
  "traverse f [] = Inr []"
| "traverse f (x # xs) =
     (case f x of
        Inl e \<Rightarrow> Inl e
      | Inr y \<Rightarrow> (case traverse f xs of Inl e \<Rightarrow> Inl e | Inr ys \<Rightarrow> Inr (y # ys)))"

definition ann_mean :: "dataset_y \<Rightarrow> pyerr + series" where
  "ann_mean dy =
     then_do (then_do (global_mean (ds_of dy))
                (\<lambda>g. swap_dims_drop \<lparr>ds_of = g, year_coord = year_coord dy\<rparr>))
       (coarsen_mean 12)"

text \<open>
  \<^verbatim>\<open>xr.concat(dsets_ann_mean, join=..., dim=expt_da)\<close> stacks the series of the experiments
  along a new dimension after aligning their year labels. With \<^verbatim>\<open>join='right'\<close> the labels
  are those of the last series; with \<^verbatim>\<open>join='outer'\<close> they are the union of all labels
  (folded with the index union, which sorts the result unless the two indexes are equal
  or one is empty). When the series do not all have the same labels, every one of them
  is reindexed to the joined labels: a label it does not have gets NaN, and a series with
  a repeated label, be it the one the labels are taken from, raises ValueError. When
  they all have the same labels nothing is reindexed. No series at all raises
  ValueError.
\<close>

datatype join = JRight | JOuter

record frame =
  experiment_id :: "string list"
  fyear :: "real list"
  rows :: "fl list list"

definition idx_union :: "real list \<Rightarrow> real list \<Rightarrow> real list" where
  "idx_union a b = (if a = b \<or> b = [] then a else if a = [] then b else sort (remdups (a @ b)))"

fun joined_index :: "join \<Rightarrow> real list list \<Rightarrow> real list" where
  "joined_index j [] = []"
| "joined_index JRight (i # is) = last (i # is)"
| "joined_index JOuter (i # is) = foldl idx_union i is"

definition value_at_year :: "series \<Rightarrow> real \<Rightarrow> fl" where
  "value_at_year s y = (case map_of (zip (syear s) (sval s)) y of None \<Rightarrow> NaN | Some v \<Rightarrow> v)"

definition reindex :: "real list \<Rightarrow> series \<Rightarrow> fl list" where
  "reindex idx s = map (value_at_year s) idx"

definition concat_join :: "join \<Rightarrow> string list \<Rightarrow> series list \<Rightarrow> pyerr + frame" where
  "concat_join j expts ss =
     (if ss = [] then Inl (ValueError ''must supply at least one object to concatenate'')
      else let idx = joined_index j (map syear ss) in
        if list_all (\<lambda>s. syear s = idx) ss
        then Inr \<lparr>experiment_id = expts, fyear = idx, rows = map sval ss\<rparr>
        else if list_ex (\<lambda>s. \<not> distinct (syear s)) ss
        then Inl (ValueError ''cannot reindex or align along dimension year'')
        else Inr \<lparr>experiment_id = expts, fyear = idx, rows = map (reindex idx) ss\<rparr>)"

text \<open>
  ecs-cmip6.ipynb (the surface temperature notebook differs in the year coordinate, in
  \<^verbatim>\<open>expts\<close> and in \<^verbatim>\<open>join='outer'\<close>):
  \<^verbatim>\<open>
  expts = ['piControl', co2_option]
  dsets_aligned = {}

  for k, v in tqdm(dsets_.items()):
      expt_dsets = v.values()
      if any([d is None for d in expt_dsets]):
          print(f"Missing experiment for {k}")
          continue

      for ds in expt_dsets:
          ds.coords['year'] = ds.time.dt.year - ds.time.dt.year[0]

      dsets_ann_mean = [v[expt].pipe(global_mean)
                               .swap_dims({'time': 'year'})
                               .drop_vars('time')
                               .coarsen(year=12).mean()
                        for expt in expts]

      # align everything with the 2xCO2 experiment
      dsets_aligned[k] = xr.concat(dsets_ann_mean, join='right',
                                   dim=expt_da)
  \<close>
  \<open>v\<close> is the dictionary of one model, from experiment to its dataset or \<^verbatim>\<open>None\<close>;
  \<^verbatim>\<open>v[expt]\<close> raises KeyError for an experiment that is not a key. An exception leaves
  the loop.
\<close>

record align_state =
  dsets_aligned :: "string \<rightharpoonup> frame"
  messages :: "string list"

definition align_init :: align_state where
  "align_init = \<lparr>dsets_aligned = Map.empty, messages = []\<rparr>"

definition lookup_expt :: "(string \<times> 'a) list \<Rightarrow> string \<Rightarrow> pyerr + 'a" where
  "lookup_expt v expt = (case map_of v expt of None \<Rightarrow> Inl (KeyError expt) | Some ds \<Rightarrow> Inr ds)"

definition present :: "(string \<times> dataset option) list \<Rightarrow> (string \<times> dataset) list" where
  "present v = List.map_filter (\<lambda>ed. map_option (Pair (fst ed)) (snd ed)) v"

definition align_model ::
  "(dataset \<Rightarrow> pyerr + dataset_y) \<Rightarrow> join \<Rightarrow> string list \<Rightarrow> (string \<times> dataset option) list
     \<Rightarrow> pyerr + frame" where
  "align_model rebase j expts v =
     then_do (traverse (\<lambda>ed. then_do (rebase (snd ed)) (\<lambda>ds. Inr (fst ed, ds))) (present v))
       (\<lambda>v'. then_do (traverse (\<lambda>expt. then_do (lookup_expt v' expt) ann_mean) expts)
                (concat_join j expts))"

definition missing_line :: "string \<Rightarrow> string" where
  "missing_line k = ''Missing experiment for '' @ k"

definition align_step ::
  "(dataset \<Rightarrow> pyerr + dataset_y) \<Rightarrow> join \<Rightarrow> string list \<Rightarrow> align_state
     \<Rightarrow> string \<times> (string \<times> dataset option) list \<Rightarrow> pyerr + align_state" where
  "align_step rebase j expts st kv =
     (if list_ex (\<lambda>ed. snd ed = None) (snd kv)
      then Inr (st\<lparr>messages := messages st @ [missing_line (fst kv)]\<rparr>)
      else then_do (align_model rebase j expts (snd kv))
             (\<lambda>f. Inr (st\<lparr>dsets_aligned := (dsets_aligned st)(fst kv \<mapsto> f)\<rparr>)))"

fun align_loop ::
  "(dataset \<Rightarrow> pyerr + dataset_y) \<Rightarrow> join \<Rightarrow> string list
     \<Rightarrow> (string \<times> (string \<times> dataset option) list) list \<Rightarrow> align_state
     \<Rightarrow> pyerr + align_state" where
  "align_loop rebase j expts [] st = Inr st"
| "align_loop rebase j expts (kv # rest) st =
     (case align_step rebase j expts st kv of
        Inl e \<Rightarrow> Inl e
      | Inr st' \<Rightarrow> align_loop rebase j expts rest st')"

definition co2_option :: string where
  "co2_option = ''abrupt-2xCO2''"

definition ecs_align ::
  "(string \<times> (string \<times> dataset option) list) list \<Rightarrow> pyerr + align_state" where
  "ecs_align dsets = align_loop rebase_ecs JRight [''piControl'', co2_option] dsets align_init"

definition gmst_align ::
  "(string \<times> (string \<times> dataset option) list) list \<Rightarrow> pyerr + align_state" where
  "gmst_align dsets =
     align_loop rebase_gmst JOuter [''historical'', ''ssp245'', ''ssp585''] dsets align_init"

text \<open>
  ecs-cmip6.ipynb opens the stores of one model and experiment and merges them:
  \<^verbatim>\<open>
  def open_dsets(df):
      dsets = [xr.open_zarr(fsspec.get_mapper(ds_url), consolidated=True)
               .pipe(drop_all_bounds)
               for ds_url in df.zstore]
      try:
          ds = xr.merge(dsets, join='exact')
          return ds
      except ValueError:
          return None
  \<close>
  The opened stores are the argument and xarray's merge is the parameter \<open>merge\<close>.
  \<open>ecs_batch\<close> is the notebook from the opened stores to the aligned models: every
  group is opened, then the alignment loop runs.
\<close>

definition open_dsets ::
  "(dataset list \<Rightarrow> pyerr + dataset) \<Rightarrow> dataset list \<Rightarrow> pyerr + dataset option" where
  "open_dsets merge dsets =
     (case merge dsets of
        Inl (ValueError msg) \<Rightarrow> Inr None
      | Inl e \<Rightarrow> Inl e
      | Inr ds \<Rightarrow> Inr (Some ds))"

definition ecs_batch ::
  "(dataset list \<Rightarrow> pyerr + dataset) \<Rightarrow> (string \<times> (string \<times> dataset list) list) list
     \<Rightarrow> pyerr + align_state" where
  "ecs_batch merge groups =
     then_do
       (traverse (\<lambda>mg. then_do
            (traverse (\<lambda>eg. then_do (open_dsets merge (snd eg)) (\<lambda>d. Inr (fst eg, d))) (snd mg))
            (\<lambda>v. Inr (fst mg, v))) groups)
       ecs_align"

section \<open>The sensitivity estimate (ecs-cmip6.ipynb)\<close>

















section \<open>Small concrete inputs\<close>

text \<open>
  Monthly dates from January of a year on, a gridded dataset of two months on three
  latitudes and two longitudes, and a one-cell dataset of any length with given values.
\<close>

definition monthly_times :: "int \<Rightarrow> nat \<Rightarrow> timestamp list" where
  "monthly_times y0 n =
     map (\<lambda>i. \<lparr>ts_year = y0 + int (i div 12), ts_month = i mod 12 + 1, ts_day = 16\<rparr>) [0..<n]"

definition grid_ds :: dataset where
  "grid_ds =
     \<lparr>coords = [(''lat'', [-60, 0, 60]), (''lon'', [0, 180])],
      time = monthly_times 1850 2,
      dims = [''time'', ''lat'', ''lon''],
      shape = [2, 3, 2],
      data_at = (\<lambda>ix. Fin (10 * real (ix ! 0) + real (ix ! 1)))\<rparr>"

definition cell_ds :: "int \<Rightarrow> real list \<Rightarrow> dataset" where
  "cell_ds y0 vs =
     \<lparr>coords = [(''lat'', [0])],
      time = monthly_times y0 (length vs),
      dims = [''time'', ''lat''],
      shape = [length vs, 1],
      data_at = (\<lambda>ix. Fin (vs ! (ix ! 0)))\<rparr>"

text \<open>Twelve months of a control run and of a forced run on one cell.\<close>

definition ctl_ds :: dataset where
  "ctl_ds = cell_ds 1850 [280, 280, 280, 281, 281, 281, 282, 282, 282, 281, 281, 281]"

definition co2_ds :: dataset where
  "co2_ds = cell_ds 1850 [283, 283, 283, 284, 284, 284, 285, 285, 285, 284, 284, 284]"

text \<open>
  Two years of a control run, and one year each of a historical run from 2014 and of two
  scenario runs from 2015.
\<close>

definition ctl2_ds :: dataset where
  "ctl2_ds = cell_ds 1850 [280, 280, 280, 280, 280, 280, 280, 280, 280, 280, 280, 280,
                           282, 282, 282, 282, 282, 282, 282, 282, 282, 282, 282, 282]"

definition hist_ds :: dataset where
  "hist_ds = cell_ds 2014 [287, 287, 287, 287, 287, 287, 287, 287, 287, 287, 287, 287]"

definition ssp245_ds :: dataset where
  "ssp245_ds = cell_ds 2015 [288, 288, 288, 288, 288, 288, 288, 288, 288, 288, 288, 288]"

definition ssp585_ds :: dataset where
  "ssp585_ds = cell_ds 2015 [289, 289, 289, 289, 289, 289, 289, 289, 289, 289, 289, 289]"

definition months24 :: series where
  "months24 =
     \<lparr>syear = [0, 0, 0, 0, 0, 0, 0, 0, 0, 0, 0, 0, 1, 1, 1, 1, 1, 1, 1, 1, 1, 1, 1, 1],
      sval = map Fin [1, 2, 3, 4, 5, 6, 7, 8, 9, 10, 11, 12,
                      13, 14, 15, 16, 17, 18, 19, 20, 21, 22, 23, 24]\<rparr>"

section \<open>Predicates of the statements\<close>

text \<open>
  A model is skipped by the alignment loop when one of its datasets is \<^verbatim>\<open>None\<close>.
  Latitudes in degrees lie between the poles, and a grid has a latitude off the poles.
  The row of a series on joined year labels: its own values when its labels are the
  joined ones, and otherwise its value at each joined label, NaN at a label it does not
  have.
\<close>

definition excluded :: "string \<times> (string \<times> dataset option) list \<Rightarrow> bool" where
  "excluded kv = list_ex (\<lambda>ed. snd ed = None) (snd kv)"

definition valid_lat :: "real list \<Rightarrow> bool" where
  "valid_lat lat \<longleftrightarrow>
     list_all (\<lambda>x. -90 \<le> x \<and> x \<le> 90) lat \<and> list_ex (\<lambda>x. -90 < x \<and> x < 90) lat"

definition aligned_row :: "real list \<Rightarrow> series \<Rightarrow> fl list" where
  "aligned_row idx s = (if syear s = idx then sval s else map (value_at_year s) idx)"

section \<open>Facts about the key splitting\<close>

lemma contains_str_iff: "contains_str sub s \<longleftrightarrow> (\<exists>ps ss. s = ps @ sub @ ss)"
proof (induction s)
  case Nil
  then show ?case by auto
next
  case (Cons c cs)
  show ?case
  proof
    assume "contains_str sub (c # cs)"
    then consider "prefix sub (c # cs)" | "contains_str sub cs" by auto
    then show "\<exists>ps ss. c # cs = ps @ sub @ ss"
    proof cases
      case 1
      then obtain ss where "c # cs = sub @ ss" by (auto simp: prefix_def)
      then have "c # cs = [] @ sub @ ss" by simp
      then show ?thesis by blast
    next
      case 2
      then obtain ps ss where "cs = ps @ sub @ ss" using Cons.IH by blast
      then have "c # cs = (c # ps) @ sub @ ss" by simp
      then show ?thesis by blast
    qed
  next
    assume "\<exists>ps ss. c # cs = ps @ sub @ ss"
    then obtain ps ss where eq: "c # cs = ps @ sub @ ss" by blast
    show "contains_str sub (c # cs)"
    proof (cases ps)
      case Nil
      then have "prefix sub (c # cs)" using eq by (simp add: prefix_def)
      then show ?thesis by simp
    next
      case (Cons p ps')
      then have "cs = ps' @ sub @ ss" using eq by simp
      then have "contains_str sub cs" using Cons.IH by blast
      then show ?thesis by simp
    qed
  qed
qed

lemma split_loop_c:
  "fst (split_loop xs c e out) = c @ filter (contains_str ''piControl'') xs"
  by (induction xs arbitrary: c e out) simp_all

lemma split_loop_e:
  "fst (snd (split_loop xs c e out)) =
     e @ filter (\<lambda>k. contains_str ''1pctCO2'' k \<and> \<not> contains_str ''piControl'' k) xs"
  by (induction xs arbitrary: c e out) simp_all

lemma split_loop_out:
  "snd (snd (split_loop xs c e out)) =
     out @ map (\<lambda>k. ''Could not find experiment name in key:'' @ k)
             (filter (\<lambda>k. \<not> contains_str ''piControl'' k \<and> \<not> contains_str ''1pctCO2'' k) xs)"
  by (induction xs arbitrary: c e out) simp_all

lemma sorted_split_list_fst:
  "fst (fst (sorted_split_list xs)) = sort (filter (contains_str ''piControl'') xs)"
  using split_loop_c [of xs "[]" "[]" "[]"]
  by (cases "split_loop xs [] [] []") (simp add: sorted_split_list_def)

lemma sorted_split_list_snd:
  "snd (fst (sorted_split_list xs)) =
     sort (filter (\<lambda>k. contains_str ''1pctCO2'' k \<and> \<not> contains_str ''piControl'' k) xs)"
  using split_loop_e [of xs "[]" "[]" "[]"]
  by (cases "split_loop xs [] [] []") (simp add: sorted_split_list_def)

text \<open>
  C10 (as amended): the two lists are sorted; the first holds exactly the input keys
  (with multiplicity) that contain \<^verbatim>\<open>piControl\<close>; the second holds exactly the keys
  that contain \<^verbatim>\<open>1pctCO2\<close> and do not contain \<^verbatim>\<open>piControl\<close> (the \<^verbatim>\<open>elif\<close>); a key
  with neither substring is in neither list, and no key is in both.
\<close>

theorem sorted_split_list_spec:
  "sorted (fst (fst (sorted_split_list xs)))
   \<and> sorted (snd (fst (sorted_split_list xs)))
   \<and> mset (fst (fst (sorted_split_list xs))) = filter_mset (contains_str ''piControl'') (mset xs)
   \<and> mset (snd (fst (sorted_split_list xs))) =
       filter_mset (\<lambda>k. contains_str ''1pctCO2'' k \<and> \<not> contains_str ''piControl'' k) (mset xs)
   \<and> set (fst (fst (sorted_split_list xs))) \<inter> set (snd (fst (sorted_split_list xs))) = {}
   \<and> {k \<in> set xs. \<not> contains_str ''piControl'' k \<and> \<not> contains_str ''1pctCO2'' k}
       \<inter> (set (fst (fst (sorted_split_list xs))) \<union> set (snd (fst (sorted_split_list xs)))) = {}"
  unfolding sorted_split_list_fst sorted_split_list_snd
  by auto

theorem sorted_split_list_spec_witness:
  "sorted_split_list
     [''CMIP.NCAR.CESM2.piControl.Omon.gn'', ''x'', ''CMIP.NCAR.CESM2.1pctCO2.Omon.gn'',
      ''CMIP.BCC.BCC-ESM1.piControl.Omon.gn'']
   = (([''CMIP.BCC.BCC-ESM1.piControl.Omon.gn'', ''CMIP.NCAR.CESM2.piControl.Omon.gn''],
       [''CMIP.NCAR.CESM2.1pctCO2.Omon.gn'']),
      [''Could not find experiment name in key:x''])
   \<and> sorted (fst (fst (sorted_split_list
        [''CMIP.NCAR.CESM2.piControl.Omon.gn'', ''x'', ''CMIP.NCAR.CESM2.1pctCO2.Omon.gn'',
         ''CMIP.BCC.BCC-ESM1.piControl.Omon.gn''])))"
  using sorted_split_list_spec
    [of "[''CMIP.NCAR.CESM2.piControl.Omon.gn'', ''x'', ''CMIP.NCAR.CESM2.1pctCO2.Omon.gn'',
          ''CMIP.BCC.BCC-ESM1.piControl.Omon.gn'']"]
  by (simp add: sorted_split_list_def)

text \<open>
  C10 (as stated) fails: a key that contains both substrings contains \<^verbatim>\<open>1pctCO2\<close>,
  yet it is put in the first list only and is missing from the second.
\<close>

theorem sorted_split_list_both_counterexample:
  "contains_str ''1pctCO2'' ''piControl-1pctCO2''
   \<and> ''piControl-1pctCO2'' \<in> set [''piControl-1pctCO2'']
   \<and> ''piControl-1pctCO2'' \<notin> set (snd (fst (sorted_split_list [''piControl-1pctCO2''])))
   \<and> sorted_split_list [''piControl-1pctCO2''] = (([''piControl-1pctCO2''], []), [])"
  by (simp add: sorted_split_list_def)

section \<open>Facts about the regridding loop and the opening of the stores\<close>

lemma regrid_step_ok:
  assumes "well_keyed (fst keys)"
  shows "\<exists>st'. regrid_step attempt st keys = Inr st'
     \<and> model_count st' = model_count st + 1
     \<and> success_count st' = success_count st + (if succeeded attempt keys then 1 else 0)
     \<and> printed st' = printed st @ [line_of attempt keys]"
  using assms
  by (cases keys; cases "attempt (fst keys) (snd keys)")
     (auto simp: regrid_step_def well_keyed_def py_index_def line_of_def succeeded_def model_of_def)

lemma regrid_loop_ok:
  assumes "list_all (\<lambda>keys. well_keyed (fst keys)) pairs"
  shows "\<exists>st'. regrid_loop attempt pairs st = Inr st'
     \<and> model_count st' = model_count st + length pairs
     \<and> success_count st' = success_count st + length (filter (succeeded attempt) pairs)
     \<and> printed st' = printed st @ map (line_of attempt) pairs"
  using assms
proof (induction pairs arbitrary: st)
  case Nil
  then show ?case by simp
next
  case (Cons keys rest)
  then have wk: "well_keyed (fst keys)" and wr: "list_all (\<lambda>keys. well_keyed (fst keys)) rest"
    by simp_all
  obtain st1 where s1: "regrid_step attempt st keys = Inr st1"
    "model_count st1 = model_count st + 1"
    "success_count st1 = success_count st + (if succeeded attempt keys then 1 else 0)"
    "printed st1 = printed st @ [line_of attempt keys]"
    using regrid_step_ok [OF wk, of attempt st] by blast
  obtain st' where s2: "regrid_loop attempt rest st1 = Inr st'"
    "model_count st' = model_count st1 + length rest"
    "success_count st' = success_count st1 + length (filter (succeeded attempt) rest)"
    "printed st' = printed st1 @ map (line_of attempt) rest"
    using Cons.IH [OF wr, of st1] by blast
  show ?case using s1 s2 by simp
qed

lemma regrid_step_index_error:
  "\<not> well_keyed (fst keys) \<Longrightarrow> regrid_step attempt st keys = Inl IndexError"
  by (cases keys) (simp add: regrid_step_def well_keyed_def py_index_def)

lemma open_dsets_none:
  "(open_dsets merge dsets = Inr None) = (\<exists>msg. merge dsets = Inl (ValueError msg))"
  by (cases "merge dsets") (auto simp: open_dsets_def split: sum.splits pyerr.splits)

text \<open>
  C9 (as amended): in the regridding loop of xesmf-ohu.ipynb, when every control key has
  a third dot-separated field (as catalog keys have), every model of the batch is
  attempted, a failure is caught and printed with the model and its reason, the loop goes
  on, and the last line printed is the summary with the number of successes and the number
  of models attempted, so the failures are exactly the models counted and not successful.
  In ecs-cmip6.ipynb \<open>open_dsets\<close> turns a merge conflict (ValueError) into \<^verbatim>\<open>None\<close>,
  dropping its reason.
\<close>

theorem regrid_batch_summary:
  assumes "list_all well_keyed ctrl_keys"
  shows "(\<exists>st. regrid_batch attempt ctrl_keys expr_keys = Inr st
     \<and> model_count st = length (zip ctrl_keys expr_keys)
     \<and> success_count st = length (filter (succeeded attempt) (zip ctrl_keys expr_keys))
     \<and> length (filter (\<lambda>keys. \<not> succeeded attempt keys) (zip ctrl_keys expr_keys))
         = model_count st - success_count st
     \<and> printed st = map (line_of attempt) (zip ctrl_keys expr_keys)
         @ [summary_line (success_count st) (model_count st)])
   \<and> (open_dsets merge dsets = Inr None) = (\<exists>msg. merge dsets = Inl (ValueError msg))"
proof -
  have "list_all (\<lambda>keys. well_keyed (fst keys)) (zip ctrl_keys expr_keys)"
    using assms by (auto simp: list_all_iff dest: set_zip_leftD)
  then obtain st' where s: "regrid_loop attempt (zip ctrl_keys expr_keys) regrid_init = Inr st'"
    "model_count st' = model_count (regrid_init :: 'a regrid_state) + length (zip ctrl_keys expr_keys)"
    "success_count st' = success_count (regrid_init :: 'a regrid_state)
        + length (filter (succeeded attempt) (zip ctrl_keys expr_keys))"
    "printed st' = printed (regrid_init :: 'a regrid_state)
        @ map (line_of attempt) (zip ctrl_keys expr_keys)"
    using regrid_loop_ok [of "zip ctrl_keys expr_keys" attempt regrid_init] by blast
  have cnt: "length (filter (\<lambda>keys. \<not> succeeded attempt keys) (zip ctrl_keys expr_keys))
      = length (zip ctrl_keys expr_keys)
        - length (filter (succeeded attempt) (zip ctrl_keys expr_keys))"
    using sum_length_filter_compl [of "succeeded attempt" "zip ctrl_keys expr_keys"] by simp
  show ?thesis
    using s cnt by (simp add: regrid_batch_def regrid_init_def open_dsets_none)
qed

theorem regrid_batch_summary_witness:
  "list_all well_keyed
     [''CMIP.NCAR.CESM2.piControl.Omon.gn'', ''CMIP.BCC.BCC-ESM1.piControl.Omon.gn'',
      ''CMIP.SNU.SAM0-UNICON.piControl.Omon.gn'']
   \<and> (\<exists>st. regrid_batch
          (\<lambda>c e. if c = ''CMIP.NCAR.CESM2.piControl.Omon.gn'' then Inl ''shape mismatch''
                  else Inr (0::nat))
          [''CMIP.NCAR.CESM2.piControl.Omon.gn'', ''CMIP.BCC.BCC-ESM1.piControl.Omon.gn'',
           ''CMIP.SNU.SAM0-UNICON.piControl.Omon.gn'']
          [''CMIP.NCAR.CESM2.1pctCO2.Omon.gn'', ''CMIP.BCC.BCC-ESM1.1pctCO2.Omon.gn'',
           ''CMIP.SNU.SAM0-UNICON.1pctCO2.Omon.gn''] = Inr st
        \<and> model_count st = 3 \<and> success_count st = 2
        \<and> printed st =
            [''Failed to regrid CESM2: shape mismatch'',
             ''BCC-ESM1 regridded and added to dictionary'',
             ''SAM0-UNICON regridded and added to dictionary'',
             summary_line 2 3])"
  (is "list_all well_keyed ?ctrl \<and> (\<exists>st. regrid_batch ?att ?ctrl ?expr = Inr st \<and> ?P st)")
proof -
  have h: "list_all well_keyed ?ctrl"
    by (simp add: well_keyed_def)
  obtain st where st: "regrid_batch ?att ?ctrl ?expr = Inr st"
     and mc: "model_count st = length (zip ?ctrl ?expr)"
     and sc: "success_count st = length (filter (succeeded ?att) (zip ?ctrl ?expr))"
     and pr: "printed st = map (line_of ?att) (zip ?ctrl ?expr)
                @ [summary_line (success_count st) (model_count st)]"
    using regrid_batch_summary [OF h, of ?att ?expr] by blast
  have n: "model_count st = 3" "success_count st = 2"
    using mc sc by (simp_all add: succeeded_def)
  have "?P st"
    unfolding pr n
    by (simp add: line_of_def model_of_def failed_line_def added_line_def)
  with st have "\<exists>st. regrid_batch ?att ?ctrl ?expr = Inr st \<and> ?P st"
    by blast
  with h show ?thesis by blast
qed

section \<open>Facts about the latitude coordinate\<close>

lemma get_lat_name_cases:
  "get_lat_name ds =
     (if ''lat'' \<in> fst ` set (coords ds) then Inr ''lat''
      else if ''latitude'' \<in> fst ` set (coords ds) then Inr ''latitude''
      else Inl (RuntimeError no_lat_message))"
  by (simp add: get_lat_name_def)

lemma map_of_present: "k \<in> fst ` set kvs \<Longrightarrow> \<exists>v. map_of kvs k = Some v"
  by (cases "map_of kvs k") (auto simp: map_of_eq_None_iff)

text \<open>
  C4: \<open>global_mean\<close> raises the RuntimeError of \<open>get_lat_name\<close> exactly when neither
  \<^verbatim>\<open>lat\<close> nor \<^verbatim>\<open>latitude\<close> is a coordinate of the dataset, and it raises nothing when
  one of them is.
\<close>

theorem global_mean_missing_coordinate:
  "(global_mean ds = Inl (RuntimeError no_lat_message))
     = (''lat'' \<notin> fst ` set (coords ds) \<and> ''latitude'' \<notin> fst ` set (coords ds))
   \<and> (\<exists>e. global_mean ds = Inl e)
     = (''lat'' \<notin> fst ` set (coords ds) \<and> ''latitude'' \<notin> fst ` set (coords ds))"
proof (cases "''lat'' \<in> fst ` set (coords ds)")
  case True
  from map_of_present [OF True] obtain v where "map_of (coords ds) ''lat'' = Some v" ..
  with True show ?thesis by (simp add: global_mean_def get_lat_name_cases)
next
  case False
  show ?thesis
  proof (cases "''latitude'' \<in> fst ` set (coords ds)")
    case True
    from map_of_present [OF True] obtain v where "map_of (coords ds) ''latitude'' = Some v" ..
    with True False show ?thesis by (simp add: global_mean_def get_lat_name_cases)
  next
    case F2: False
    with False show ?thesis by (simp add: global_mean_def get_lat_name_cases)
  qed
qed

theorem global_mean_missing_coordinate_witness:
  "global_mean (grid_ds\<lparr>coords := [(''lon'', [0, 180])]\<rparr>) = Inl (RuntimeError no_lat_message)
   \<and> global_mean grid_ds \<noteq> Inl (RuntimeError no_lat_message)"
proof -
  have a: "''lat'' \<notin> fst ` set (coords (grid_ds\<lparr>coords := [(''lon'', [0, 180])]\<rparr>))
      \<and> ''latitude'' \<notin> fst ` set (coords (grid_ds\<lparr>coords := [(''lon'', [0, 180])]\<rparr>))"
    by simp
  have b: "\<not> (''lat'' \<notin> fst ` set (coords grid_ds) \<and> ''latitude'' \<notin> fst ` set (coords grid_ds))"
    by (simp add: grid_ds_def)
  have c: "global_mean (grid_ds\<lparr>coords := [(''lon'', [0, 180])]\<rparr>)
      = Inl (RuntimeError no_lat_message)"
    by (rule iffD2 [OF conjunct1 [OF global_mean_missing_coordinate] a])
  have d: "global_mean grid_ds \<noteq> Inl (RuntimeError no_lat_message)"
    using b iffD1 [OF conjunct1 [OF global_mean_missing_coordinate [of grid_ds]]]
    by (intro notI) (elim notE)
  show ?thesis using c d by (intro conjI)
qed

section \<open>Facts about the year coordinate\<close>

text \<open>
  C5 (as amended): in ecs-cmip6.ipynb the year coordinate of a dataset with a non-empty
  time axis is the calendar year of each date minus the calendar year of the first, so it
  starts at 0 (an empty time axis raises IndexError); in the surface temperature
  notebook the year coordinate is the calendar year itself.
\<close>

theorem rebase_year_counter:
  "(time ds \<noteq> [] \<longrightarrow>
      rebase_ecs ds = Inr \<lparr>ds_of = ds, year_coord =
         map (\<lambda>t. ts_year t - ts_year (hd (time ds))) (time ds)\<rparr>
      \<and> hd (map (\<lambda>t. ts_year t - ts_year (hd (time ds))) (time ds)) = 0)
   \<and> (time ds = [] \<longrightarrow> rebase_ecs ds = Inl IndexError)
   \<and> rebase_gmst ds = Inr \<lparr>ds_of = ds, year_coord = map ts_year (time ds)\<rparr>"
  by (cases "time ds") (simp_all add: rebase_ecs_def rebase_gmst_def)

theorem rebase_year_counter_witness:
  "time (cell_ds 1850 [280, 281]) \<noteq> []
   \<and> map_sum id year_coord (rebase_ecs (cell_ds 1850 [280, 281])) = Inr [0, 0]
   \<and> map_sum id year_coord (rebase_gmst (cell_ds 1850 [280, 281])) = Inr [1850, 1850]
   \<and> time (cell_ds 1850 []) = []
   \<and> rebase_ecs (cell_ds 1850 []) = Inl IndexError"
  using rebase_year_counter [of "cell_ds 1850 [280, 281]"] rebase_year_counter [of "cell_ds 1850 []"]
  by (simp add: cell_ds_def monthly_times_def)

text \<open>
  C5 (as stated) fails in the surface temperature notebook: for dates that start in 1850
  the year coordinate starts at 1850, not at 0.
\<close>

theorem rebase_gmst_counterexample:
  "map_sum id year_coord (rebase_gmst (cell_ds 1850 [280, 281])) = Inr [1850, 1850]
   \<and> hd [1850, 1850 :: int] \<noteq> 0"
  by (simp add: rebase_gmst_def cell_ds_def monthly_times_def)

section \<open>Facts about the annual resampling\<close>


declare chunks.simps [simp del]

lemma chunks_Nil [simp]: "chunks k [] = []"
  by (subst chunks.simps) simp

lemma chunks_step: "0 < k \<Longrightarrow> xs \<noteq> [] \<Longrightarrow> chunks k xs = take k xs # chunks k (drop k xs)"
  by (subst chunks.simps) simp

lemma chunks_length: "0 < k \<Longrightarrow> length xs = k * m \<Longrightarrow> length (chunks k xs) = m"
proof (induction m arbitrary: xs)
  case 0
  then show ?case by simp
next
  case (Suc m)
  then have ne: "xs \<noteq> []" by auto
  have "length (drop k xs) = k * m" using Suc.prems by simp
  then have "length (chunks k (drop k xs)) = m" using Suc.IH Suc.prems(1) by blast
  then show ?case by (simp add: chunks_step [OF Suc.prems(1) ne])
qed

lemma chunks_nth:
  "0 < k \<Longrightarrow> length xs = k * m \<Longrightarrow> i < m \<Longrightarrow> chunks k xs ! i = take k (drop (k * i) xs)"
proof (induction m arbitrary: xs i)
  case 0
  then show ?case by simp
next
  case (Suc m)
  then have ne: "xs \<noteq> []" by auto
  have len: "length (drop k xs) = k * m" using Suc.prems by simp
  show ?case
  proof (cases i)
    case 0
    then show ?thesis by (simp add: chunks_step [OF Suc.prems(1) ne])
  next
    case (Suc j)
    then have "j < m" using Suc.prems by simp
    then have "chunks k (drop k xs) ! j = take k (drop (k * j) (drop k xs))"
      using Suc.IH [OF Suc.prems(1) len] by blast
    then show ?thesis using Suc by (simp add: chunks_step [OF Suc.prems(1) ne] add.commute)
  qed
qed

lemma finite_vals_Fin: "finite_vals (map Fin xs) = xs"
  by (induction xs) simp_all

lemma nanmean_Fin: "nanmean (map Fin xs) = mean_real xs"
  by (simp add: nanmean_def finite_vals_Fin)

text \<open>
  C6 (as amended): \<^verbatim>\<open>coarsen(year=12).mean()\<close> raises ValueError when the length of the
  series is not a multiple of 12. When it is, the result has one point for each block
  of 12 consecutive months, the mean of the block with missing values skipped, which
  for a block without missing values is its unweighted mean; a series of 24 months
  gives exactly 2 points.
\<close>

theorem coarsen_annual:
  "(length (sval s) mod 12 \<noteq> 0 \<longrightarrow>
      coarsen_mean 12 s = Inl (ValueError ''Could not coarsen a dimension with boundary=exact''))
   \<and> (length (sval s) mod 12 = 0 \<longrightarrow>
        (\<exists>s'. coarsen_mean 12 s = Inr s'
           \<and> length (sval s') = length (sval s) div 12
           \<and> (\<forall>i < length (sval s) div 12.
                 sval s' ! i = nanmean (take 12 (drop (12 * i) (sval s))))))
   \<and> (length (sval s) = 24 \<longrightarrow>
        (\<exists>s'. coarsen_mean 12 s = Inr s'
           \<and> sval s' = [nanmean (take 12 (sval s)), nanmean (drop 12 (sval s))]))
   \<and> (xs \<noteq> [] \<longrightarrow> nanmean (map Fin xs) = Fin (sum_list xs / real (length xs)))"
proof (intro conjI impI)
  assume "length (sval s) mod 12 \<noteq> 0"
  then show "coarsen_mean 12 s = Inl (ValueError ''Could not coarsen a dimension with boundary=exact'')"
    by (simp add: coarsen_mean_def)
next
  assume m: "length (sval s) mod 12 = 0"
  then have len: "length (sval s) = 12 * (length (sval s) div 12)" by presburger
  have l: "length (chunks 12 (sval s)) = length (sval s) div 12"
    using chunks_length [OF _ len] by simp
  have n: "\<forall>i < length (sval s) div 12.
      map nanmean (chunks 12 (sval s)) ! i = nanmean (take 12 (drop (12 * i) (sval s)))"
    using chunks_nth [OF _ len] l by simp
  show "\<exists>s'. coarsen_mean 12 s = Inr s'
           \<and> length (sval s') = length (sval s) div 12
           \<and> (\<forall>i < length (sval s) div 12.
                 sval s' ! i = nanmean (take 12 (drop (12 * i) (sval s))))"
    using m l n by (simp add: coarsen_mean_def)
next
  assume t: "length (sval s) = 24"
  then have ne: "sval s \<noteq> []" "drop 12 (sval s) \<noteq> []" by auto
  have "chunks 12 (sval s) = [take 12 (sval s), drop 12 (sval s)]"
    using t ne by (simp add: chunks_step [of 12 "sval s"] chunks_step [of 12 "drop 12 (sval s)"])
  then show "\<exists>s'. coarsen_mean 12 s = Inr s'
           \<and> sval s' = [nanmean (take 12 (sval s)), nanmean (drop 12 (sval s))]"
    using t by (simp add: coarsen_mean_def)
next
  assume "xs \<noteq> []"
  then show "nanmean (map Fin xs) = Fin (sum_list xs / real (length xs))"
    by (simp add: nanmean_Fin mean_real_def)
qed

theorem coarsen_annual_witness:
  "length (sval months24) = 24 \<and> length (sval months24) mod 12 = 0
   \<and> coarsen_mean 12 months24 = Inr \<lparr>syear = [0, 1], sval = [Fin (13 / 2), Fin (37 / 2)]\<rparr>
   \<and> nanmean (map Fin [1, 2, 3]) = Fin 2
   \<and> length (sval (months24\<lparr>sval := [Fin 1]\<rparr>)) mod 12 \<noteq> 0
   \<and> coarsen_mean 12 (months24\<lparr>sval := [Fin 1]\<rparr>)
       = Inl (ValueError ''Could not coarsen a dimension with boundary=exact'')"
  using coarsen_annual [of months24 "[1, 2, 3]"] coarsen_annual [of "months24\<lparr>sval := [Fin 1]\<rparr>" "[1]"]
  by (simp add: coarsen_mean_def months24_def nanmean_def mean_real_def block_mean_def chunks_step)

text \<open>
  C6 (as stated) fails: a series of 25 months is not truncated to 2 annual points, the
  resampling raises ValueError.
\<close>

theorem coarsen_25_months_counterexample:
  "length (sval (months24\<lparr>syear := syear months24 @ [2], sval := sval months24 @ [Fin 25]\<rparr>)) = 25
   \<and> coarsen_mean 12 (months24\<lparr>syear := syear months24 @ [2], sval := sval months24 @ [Fin 25]\<rparr>)
       = Inl (ValueError ''Could not coarsen a dimension with boundary=exact'')"
  by (simp add: coarsen_mean_def months24_def)


section \<open>Facts about the stacking of the experiments\<close>


lemma set_idx_union: "set (idx_union a b) = set a \<union> set b"
  by (auto simp: idx_union_def)

lemma set_foldl_idx_union: "set (foldl idx_union i js) = set i \<union> (\<Union>x\<in>set js. set x)"
  by (induction js arbitrary: i) (auto simp: set_idx_union)

lemma value_at_year_absent: "y \<notin> set (syear s) \<Longrightarrow> value_at_year s y = NaN"
proof -
  assume "y \<notin> set (syear s)"
  then have "y \<notin> fst ` set (zip (syear s) (sval s))"
    by (auto dest: set_zip_leftD)
  then have "map_of (zip (syear s) (sval s)) y = None"
    by (simp add: map_of_eq_None_iff)
  then show ?thesis by (simp add: value_at_year_def)
qed

lemma value_at_year_present:
  assumes "distinct (syear s)" "length (sval s) = length (syear s)" "i < length (syear s)"
  shows "value_at_year s (syear s ! i) = sval s ! i"
proof -
  have "map_of (zip (syear s) (sval s)) (syear s ! i) = Some (sval s ! i)"
    using assms by (simp add: map_of_zip_nth)
  then show ?thesis by (simp add: value_at_year_def)
qed

lemma reindex_self:
  assumes "distinct (syear s)" "length (sval s) = length (syear s)"
  shows "map (value_at_year s) (syear s) = sval s"
  using assms by (auto simp: list_eq_iff_nth_eq value_at_year_present)

lemma joined_index_right: "ss \<noteq> [] \<Longrightarrow> joined_index JRight (map syear ss) = syear (last ss)"
  by (cases ss) (simp_all add: last_map)

lemma joined_index_outer_set:
  "set (joined_index JOuter (map syear ss)) = (\<Union>s\<in>set ss. set (syear s))"
  by (cases ss) (auto simp: set_foldl_idx_union)

lemma concat_join_Inr_rows:
  assumes c: "concat_join j expts ss = Inr f"
    and wf: "\<forall>s\<in>set ss. length (sval s) = length (syear s)"
  shows "ss \<noteq> []" and "experiment_id f = expts"
    and "fyear f = joined_index j (map syear ss)"
    and "rows f = map (aligned_row (fyear f)) ss"
    and "\<forall>s\<in>set ss. syear s = fyear f \<or> distinct (syear s)"
proof -
  let ?idx = "joined_index j (map syear ss)"
  show ne: "ss \<noteq> []" using c by (auto simp: concat_join_def)
  consider (same) "list_all (\<lambda>s. syear s = ?idx) ss"
      "f = \<lparr>experiment_id = expts, fyear = ?idx, rows = map sval ss\<rparr>"
    | (reindexed) "\<not> list_ex (\<lambda>s. \<not> distinct (syear s)) ss"
      "f = \<lparr>experiment_id = expts, fyear = ?idx, rows = map (reindex ?idx) ss\<rparr>"
    using c ne by (auto simp: concat_join_def Let_def split: if_splits)
  then have r: "experiment_id f = expts \<and> fyear f = ?idx
      \<and> rows f = map (aligned_row (fyear f)) ss
      \<and> (\<forall>s\<in>set ss. syear s = fyear f \<or> distinct (syear s))"
  proof cases
    case same
    have "map sval ss = map (aligned_row ?idx) ss"
    proof (rule map_cong [OF refl])
      fix s assume "s \<in> set ss"
      then have "syear s = ?idx" using same(1) by (simp add: list_all_iff)
      then show "sval s = aligned_row ?idx s" by (simp add: aligned_row_def)
    qed
    then show ?thesis using same by (simp add: list_all_iff)
  next
    case reindexed
    have d: "\<forall>s\<in>set ss. distinct (syear s)"
      using reindexed(1) by (simp add: list_ex_iff)
    have "map (reindex ?idx) ss = map (aligned_row ?idx) ss"
    proof (rule map_cong [OF refl])
      fix s assume s: "s \<in> set ss"
      show "reindex ?idx s = aligned_row ?idx s"
      proof (cases "syear s = ?idx")
        case True
        have "map (value_at_year s) (syear s) = sval s"
          using reindex_self [of s] d wf s by simp
        then show ?thesis using True by (simp add: aligned_row_def reindex_def)
      next
        case False
        then show ?thesis by (simp add: aligned_row_def reindex_def)
      qed
    qed
    then show ?thesis using reindexed d by simp
  qed
  from r show "experiment_id f = expts" by (elim conjE)
  from r show "fyear f = joined_index j (map syear ss)" by (elim conjE)
  from r show "rows f = map (aligned_row (fyear f)) ss" by (elim conjE)
  from r show "\<forall>s\<in>set ss. syear s = fyear f \<or> distinct (syear s)" by (elim conjE)
qed

section \<open>Facts about the global mean\<close>

lemma cos_deg_nonneg: "-90 \<le> x \<Longrightarrow> x \<le> 90 \<Longrightarrow> 0 \<le> cos (deg2rad x)"
proof -
  assume a: "-90 \<le> x" "x \<le> 90"
  have "(-90) * (pi / 180) \<le> x * (pi / 180)" "x * (pi / 180) \<le> 90 * (pi / 180)"
    using a by (intro mult_right_mono; simp)+
  then have "- (pi / 2) \<le> deg2rad x" "deg2rad x \<le> pi / 2"
    by (simp_all add: deg2rad_def)
  then show ?thesis by (rule cos_ge_zero)
qed

lemma cos_deg_pos: "-90 < x \<Longrightarrow> x < 90 \<Longrightarrow> 0 < cos (deg2rad x)"
proof -
  assume a: "-90 < x" "x < 90"
  have "(-90) * (pi / 180) < x * (pi / 180)" "x * (pi / 180) < 90 * (pi / 180)"
    using a by (intro mult_strict_right_mono; simp)+
  then have "- (pi / 2) < deg2rad x" "deg2rad x < pi / 2"
    by (simp_all add: deg2rad_def)
  then show ?thesis by (rule cos_gt_zero_pi)
qed

lemma sum_list_pos_real:
  fixes xs :: "real list"
  assumes "list_all (\<lambda>x. 0 \<le> x) xs" "list_ex (\<lambda>x. 0 < x) xs"
  shows "0 < sum_list xs"
  using assms
proof (induction xs)
  case Nil
  then show ?case by simp
next
  case (Cons x xs)
  have nn: "0 \<le> sum_list xs" using Cons.prems(1) by (simp add: list_all_iff sum_list_nonneg)
  show ?case
  proof (cases "0 < x")
    case True
    then show ?thesis using nn by simp
  next
    case False
    then have "list_ex (\<lambda>x. 0 < x) xs" using Cons.prems(2) by simp
    then have "0 < sum_list xs" using Cons.IH Cons.prems(1) by simp
    then show ?thesis using Cons.prems(1) by simp
  qed
qed

lemma valid_lat_sum_pos: "valid_lat lat \<Longrightarrow> 0 < sum_list (map (\<lambda>x. cos (deg2rad x)) lat)"
  unfolding valid_lat_def
  by (rule sum_list_pos_real)
     (auto simp: list_all_iff list_ex_iff cos_deg_nonneg cos_deg_pos intro: cos_deg_pos)

lemma valid_lat_nonempty: "valid_lat lat \<Longrightarrow> lat \<noteq> []"
  by (auto simp: valid_lat_def)

lemma sum_list_map_divide:
  fixes f :: "'a \<Rightarrow> real"
  shows "sum_list (map (\<lambda>x. f x / c) xs) = sum_list (map f xs) / c"
  by (induction xs) (simp_all add: add_divide_distrib)

lemma finite_vals_map_Fin: "finite_vals (map (\<lambda>x. Fin (f x)) xs) = map f xs"
  by (induction xs) simp_all

lemma lat_weights_normalised:
  assumes "valid_lat lat"
  shows "lat_weights lat =
           map (\<lambda>x. Fin (cos (deg2rad x) /
                  (sum_list (map (\<lambda>x. cos (deg2rad x)) lat) / real (length lat)))) lat"
    and "nanmean (lat_weights lat) = Fin 1"
proof -
  let ?w = "map (\<lambda>x. cos (deg2rad x)) lat"
  let ?m = "sum_list ?w / real (length lat)"
  have pos: "0 < sum_list ?w" using valid_lat_sum_pos [OF assms] .
  have ne: "lat \<noteq> []" using valid_lat_nonempty [OF assms] .
  then have m: "?m \<noteq> 0" using pos by simp
  have mr: "mean_real ?w = Fin ?m" using ne by (simp add: mean_real_def)
  show w: "lat_weights lat = map (\<lambda>x. Fin (cos (deg2rad x) / ?m)) lat"
    using m mr by (simp add: lat_weights_def fl_div_def Let_def)
  have fv: "finite_vals (map (\<lambda>x. Fin (cos (deg2rad x) / ?m)) lat) = map (\<lambda>x. cos (deg2rad x) / ?m) lat"
    by (rule finite_vals_map_Fin)
  have "sum_list (map (\<lambda>x. cos (deg2rad x) / ?m) lat) = sum_list ?w / ?m"
    by (rule sum_list_map_divide)
  then have one: "sum_list (map (\<lambda>x. cos (deg2rad x) / ?m) lat) / real (length lat) = 1"
    using m ne pos by (simp add: field_simps)
  have "nanmean (lat_weights lat) = mean_real (map (\<lambda>x. cos (deg2rad x) / ?m) lat)"
    by (simp only: w nanmean_def fv)
  also have "\<dots> = Fin (sum_list (map (\<lambda>x. cos (deg2rad x) / ?m) lat) / real (length lat))"
    using ne unfolding mean_real_def by (simp only: map_is_Nil_conv if_False length_map)
  also have "\<dots> = Fin 1"
    by (simp only: one)
  finally show "nanmean (lat_weights lat) = Fin 1" .
qed

lemma axis_of_nth: "d \<in> set ds \<Longrightarrow> axis_of d ds < length ds \<and> ds ! axis_of d ds = d"
  unfolding axis_of_def
  by (induction ds) auto

lemma filter_eq_upt: "p < n \<Longrightarrow> filter (\<lambda>i. i = p) [0..<n] = [p]"
proof (induction n)
  case 0
  then show ?case by simp
next
  case (Suc n)
  show ?case
  proof (cases "p = n")
    case True
    have "filter (\<lambda>i. i = n) [0..<n] = []" by (simp add: filter_empty_conv)
    then show ?thesis using True by simp
  next
    case False
    then have "p < n" using Suc.prems by simp
    then show ?thesis using Suc.IH False by simp
  qed
qed

lemma filter_nth_eq:
  assumes "distinct xs" "p < length xs"
  shows "filter (\<lambda>i. xs ! i = xs ! p) [0..<length xs] = [p]"
proof -
  have "filter (\<lambda>i. xs ! i = xs ! p) [0..<length xs] = filter (\<lambda>i. i = p) [0..<length xs]"
    using assms by (intro filter_cong refl) (auto simp: nth_eq_iff_index_eq)
  then show ?thesis using filter_eq_upt [OF assms(2)] by simp
qed

lemma kept_axes_time:
  assumes "distinct (dims ds)" "''time'' \<in> set (dims ds)"
  shows "kept_axes (set (dims ds) - {''time''}) ds = [axis_of ''time'' (dims ds)]"
proof -
  let ?p = "axis_of ''time'' (dims ds)"
  have p: "?p < length (dims ds)" "dims ds ! ?p = ''time''"
    using axis_of_nth [OF assms(2)] by simp_all
  have "kept_axes (set (dims ds) - {''time''}) ds
      = filter (\<lambda>i. dims ds ! i = dims ds ! ?p) [0..<length (dims ds)]"
    unfolding kept_axes_def using p by (intro filter_cong refl) auto
  then show ?thesis using filter_nth_eq [OF assms(1) p(1)] by simp
qed

lemma size_of_nth:
  assumes "length (shape ds) = length (dims ds)" "distinct (dims ds)" "d \<in> set (dims ds)"
  shows "size_of ds d = Some (shape ds ! axis_of d (dims ds))"
proof -
  have p: "axis_of d (dims ds) < length (dims ds)" "dims ds ! axis_of d (dims ds) = d"
    using axis_of_nth [OF assms(3)] by simp_all
  have "map_of (zip (dims ds) (shape ds)) (dims ds ! axis_of d (dims ds))
      = Some (shape ds ! axis_of d (dims ds))"
    using assms p by (intro map_of_zip_nth) simp_all
  then show ?thesis using p by (simp add: size_of_def)
qed

lemma size_of_dim: "size_of ds d = Some n \<Longrightarrow> d \<in> set (dims ds)"
  unfolding size_of_def by (auto dest!: map_of_SomeD set_zip_leftD)

lemma coords_dropped:
  assumes "wf_dataset ds"
  shows "filter (\<lambda>c. fst c \<notin> set (dims ds) - {''time''}) (coords ds) = []"
proof -
  have "\<forall>c\<in>set (coords ds). fst c \<in> set (dims ds) - {''time''}"
  proof
    fix c assume c: "c \<in> set (coords ds)"
    then have "size_of ds (fst c) = Some (length (snd c))"
      using assms by (simp add: wf_dataset_def list_all_iff)
    then have "fst c \<in> set (dims ds)" by (rule size_of_dim)
    moreover have "''time'' \<notin> fst ` set (coords ds)" using assms by (simp add: wf_dataset_def)
    then have "fst c \<noteq> ''time''" using c by (metis imageI)
    ultimately show "fst c \<in> set (dims ds) - {''time''}" by simp
  qed
  then show ?thesis by (simp add: filter_empty_conv)
qed

lemma global_mean_shape:
  assumes wf: "wf_dataset ds" and t: "''time'' \<in> set (dims ds)"
    and lname: "get_lat_name ds = Inr lname" and lat: "map_of (coords ds) lname = Some lat"
  shows "global_mean ds = Inr (mean_over (set (dims ds) - {''time''})
             (times_weight lname (lat_weights lat) ds))"
    and "dims (mean_over (set (dims ds) - {''time''}) (times_weight lname (lat_weights lat) ds))
           = [''time'']"
    and "shape (mean_over (set (dims ds) - {''time''}) (times_weight lname (lat_weights lat) ds))
           = [length (time ds)]"
    and "coords (mean_over (set (dims ds) - {''time''}) (times_weight lname (lat_weights lat) ds))
           = []"
    and "time (mean_over (set (dims ds) - {''time''}) (times_weight lname (lat_weights lat) ds))
           = time ds"
    and "data_at (mean_over (set (dims ds) - {''time''}) (times_weight lname (lat_weights lat) ds)) [i]
           = nanmean (map (\<lambda>ix. fl_mul (data_at ds ix)
                                 (lat_weights lat ! (ix ! axis_of lname (dims ds))))
               (filter (\<lambda>ix. ix ! axis_of ''time'' (dims ds) = i) (all_indices (shape ds))))"
proof -
  let ?tw = "times_weight lname (lat_weights lat) ds"
  let ?p = "axis_of ''time'' (dims ds)"
  have d: "distinct (dims ds)" and l: "length (shape ds) = length (dims ds)"
    using wf by (simp_all add: wf_dataset_def)
  have tw: "dims ?tw = dims ds" "shape ?tw = shape ds" "coords ?tw = coords ds"
    by (simp_all add: times_weight_def)
  have k: "kept_axes (set (dims ds) - {''time''}) ?tw = [?p]"
    using kept_axes_time [of ?tw] d t tw by simp
  have p: "?p < length (dims ds)" "dims ds ! ?p = ''time''"
    using axis_of_nth [OF t] by simp_all
  have sz: "shape ds ! ?p = length (time ds)"
    using size_of_nth [OF l d t] wf t by (simp add: wf_dataset_def)
  show "global_mean ds = Inr (mean_over (set (dims ds) - {''time''}) ?tw)"
    using lname lat by (simp add: global_mean_def)
  show "dims (mean_over (set (dims ds) - {''time''}) ?tw) = [''time'']"
    using k p tw by (simp add: mean_over_def)
  show "shape (mean_over (set (dims ds) - {''time''}) ?tw) = [length (time ds)]"
    using k sz tw by (simp add: mean_over_def)
  show "coords (mean_over (set (dims ds) - {''time''}) ?tw) = []"
    using coords_dropped [OF wf] tw by (simp add: mean_over_def)
  show "time (mean_over (set (dims ds) - {''time''}) ?tw) = time ds"
    by (simp add: mean_over_def times_weight_def)
  show "data_at (mean_over (set (dims ds) - {''time''}) ?tw) [i]
           = nanmean (map (\<lambda>ix. fl_mul (data_at ds ix)
                                 (lat_weights lat ! (ix ! axis_of lname (dims ds))))
               (filter (\<lambda>ix. ix ! ?p = i) (all_indices (shape ds))))"
    using k tw by (simp add: mean_over_def) (simp add: times_weight_def comp_def)
qed

lemma all_indices_Cons:
  "all_indices (n # shp) = concat (map (\<lambda>i. map (Cons i) (all_indices shp)) [0..<n])"
  by (simp add: all_indices_def)

lemma all_indices_Nil: "all_indices [] = [[]]"
  by (simp add: all_indices_def)

lemma concat_select: "concat (map (\<lambda>i. if i = t then X else []) [0..<n]) = (if t < n then X else [])"
  by (induction n) auto

lemma slab_time_first:
  assumes "t < n"
  shows "filter (\<lambda>ix. ix ! 0 = t) (all_indices (n # shp)) = map (Cons t) (all_indices shp)"
proof -
  have "filter (\<lambda>ix. ix ! 0 = t) (all_indices (n # shp))
      = concat (map (\<lambda>i. filter (\<lambda>ix. ix ! 0 = t) (map (Cons i) (all_indices shp))) [0..<n])"
    by (simp add: all_indices_Cons filter_concat comp_def)
  also have "\<dots> = concat (map (\<lambda>i. if i = t then map (Cons t) (all_indices shp) else []) [0..<n])"
    by (intro arg_cong [where f = concat] map_cong refl) (auto simp: filter_map comp_def)
  also have "\<dots> = map (Cons t) (all_indices shp)"
    using assms by (simp add: concat_select)
  finally show ?thesis .
qed

lemma all_indices_bounds:
  "ix \<in> set (all_indices shp) \<Longrightarrow> length ix = length shp \<and> (\<forall>k<length shp. ix ! k < shp ! k)"
proof (induction shp arbitrary: ix)
  case Nil
  then show ?case by (simp add: all_indices_Nil)
next
  case (Cons n shp)
  then obtain i r where ir: "ix = i # r" "i < n" "r \<in> set (all_indices shp)"
    by (auto simp: all_indices_Cons)
  then have "length r = length shp \<and> (\<forall>k<length shp. r ! k < shp ! k)"
    using Cons.IH by blast
  then show ?case using ir by (auto simp: nth_Cons split: nat.splits)
qed

lemma length_all_indices: "length (all_indices shp) = prod_list shp"
  by (induction shp) (simp_all add: all_indices_Nil all_indices_Cons length_concat comp_def sum_list_triv)

lemma sum_list_concat_map:
  fixes h :: "'a \<Rightarrow> real"
  shows "sum_list (map h (concat (map F xs))) = sum_list (map (\<lambda>x. sum_list (map h (F x))) xs)"
  by (induction xs) simp_all

lemma sum_over_axis:
  fixes g :: "nat \<Rightarrow> real"
  assumes "q < length shp"
  shows "sum_list (map (\<lambda>ix. g (ix ! q)) (all_indices shp)) * real (shp ! q)
       = real (length (all_indices shp)) * sum_list (map g [0..<shp ! q])"
  using assms
proof (induction shp arbitrary: q)
  case Nil
  then show ?case by simp
next
  case (Cons n shp)
  let ?L = "all_indices shp"
  show ?case
  proof (cases q)
    case 0
    have "sum_list (map (\<lambda>ix. g (ix ! 0)) (all_indices (n # shp)))
        = sum_list (map (\<lambda>i. sum_list (map (\<lambda>ix. g (ix ! 0)) (map (Cons i) ?L))) [0..<n])"
      by (simp add: all_indices_Cons sum_list_concat_map)
    also have "\<dots> = sum_list (map (\<lambda>i. real (length ?L) * g i) [0..<n])"
      by (simp add: comp_def sum_list_triv)
    also have "\<dots> = real (length ?L) * sum_list (map g [0..<n])"
      by (simp add: sum_list_const_mult)
    finally show ?thesis using 0
      by (simp add: length_all_indices algebra_simps)
  next
    case (Suc q')
    then have q': "q' < length shp" using Cons.prems by simp
    have "sum_list (map (\<lambda>ix. g (ix ! q)) (all_indices (n # shp)))
        = sum_list (map (\<lambda>i. sum_list (map (\<lambda>ix. g (ix ! q)) (map (Cons i) ?L))) [0..<n])"
      by (simp add: all_indices_Cons sum_list_concat_map)
    also have "\<dots> = sum_list (map (\<lambda>i. sum_list (map (\<lambda>ix. g (ix ! q')) ?L)) [0..<n])"
      using Suc by (simp add: comp_def)
    also have "\<dots> = real n * sum_list (map (\<lambda>ix. g (ix ! q')) ?L)"
      by (simp add: sum_list_triv)
    finally have "sum_list (map (\<lambda>ix. g (ix ! q)) (all_indices (n # shp))) * real ((n # shp) ! q)
        = real n * (sum_list (map (\<lambda>ix. g (ix ! q')) ?L) * real (shp ! q'))"
      using Suc by simp
    also have "\<dots> = real n * (real (length ?L) * sum_list (map g [0..<shp ! q']))"
      using Cons.IH [OF q'] by simp
    finally show ?thesis using Suc by (simp add: length_all_indices)
  qed
qed

lemma weighted_mean_core:
  fixes f c :: "'a \<Rightarrow> real"
  assumes "I \<noteq> []" "m \<noteq> 0" "sum_list (map c I) = real (length I) * m"
  shows "nanmean (map (\<lambda>ix. Fin (f ix * (c ix / m))) I)
       = Fin (sum_list (map (\<lambda>ix. f ix * c ix) I) / sum_list (map c I))"
proof -
  have "sum_list (map (\<lambda>ix. f ix * (c ix / m)) I) = sum_list (map (\<lambda>ix. f ix * c ix) I) / m"
    using sum_list_map_divide [of "\<lambda>ix. f ix * c ix" m I] by simp
  then have "sum_list (map (\<lambda>ix. f ix * (c ix / m)) I) / real (length I)
      = sum_list (map (\<lambda>ix. f ix * c ix) I) / sum_list (map c I)"
    using assms by (simp add: field_simps)
  then show ?thesis using assms(1)
    by (simp only: nanmean_def finite_vals_map_Fin mean_real_def map_is_Nil_conv if_False length_map)
qed


lemma lat_axis:
  assumes wf: "wf_dataset ds" and lat: "map_of (coords ds) lname = Some lat"
  shows "lname \<in> set (dims ds)" "lname \<noteq> ''time''"
    "shape ds ! axis_of lname (dims ds) = length lat"
proof -
  have m: "(lname, lat) \<in> set (coords ds)" using lat by (rule map_of_SomeD)
  then have sz: "size_of ds lname = Some (length lat)"
    using wf by (force simp: wf_dataset_def list_all_iff)
  then show d: "lname \<in> set (dims ds)" by (rule size_of_dim)
  have "''time'' \<notin> fst ` set (coords ds)" using wf by (simp add: wf_dataset_def)
  then show "lname \<noteq> ''time''" using m by (metis fst_conv imageI)
  have "length (shape ds) = length (dims ds)" "distinct (dims ds)"
    using wf by (simp_all add: wf_dataset_def)
  then show "shape ds ! axis_of lname (dims ds) = length lat"
    using size_of_nth [OF _ _ d] sz by simp
qed

lemma sum_list_nth_upt:
  fixes f :: "'a \<Rightarrow> real"
  shows "sum_list (map (\<lambda>i. f (xs ! i)) [0..<length xs]) = sum_list (map f xs)"
proof -
  have "map (\<lambda>i. f (xs ! i)) [0..<length xs] = map f (map (nth xs) [0..<length xs])"
    by (simp only: map_map comp_def)
  then show ?thesis by (simp only: map_nth)
qed

lemma global_mean_weighted_average:
  assumes wf: "wf_dataset ds" and first: "dims ds = ''time'' # rest"
    and lat: "map_of (coords ds) lname = Some lat" and v: "valid_lat lat"
    and pos: "0 \<notin> set (shape ds)" and fin: "\<forall>ix. data_at ds ix = Fin (f ix)"
    and i: "i < length (time ds)"
  shows "nanmean (map (\<lambda>ix. fl_mul (data_at ds ix) (lat_weights lat ! (ix ! axis_of lname (dims ds))))
               (filter (\<lambda>ix. ix ! axis_of ''time'' (dims ds) = i) (all_indices (shape ds))))
       = Fin (sum_list (map (\<lambda>ix. f (i # ix) * cos (deg2rad (lat ! (ix ! axis_of lname rest))))
                   (all_indices (tl (shape ds))))
              / sum_list (map (\<lambda>ix. cos (deg2rad (lat ! (ix ! axis_of lname rest))))
                   (all_indices (tl (shape ds)))))"
proof -
  let ?c = "\<lambda>k. cos (deg2rad (lat ! k))"
  let ?m = "sum_list (map (\<lambda>x. cos (deg2rad x)) lat) / real (length lat)"
  let ?q = "axis_of lname rest"
  obtain n shp where sh: "shape ds = n # shp"
    using wf first by (cases "shape ds") (simp_all add: wf_dataset_def)
  have len: "length shp = length rest" using wf first sh by (simp add: wf_dataset_def)
  have t0: "axis_of ''time'' (dims ds) = 0" using first by (simp add: axis_of_def)
  have tin: "''time'' \<in> set (dims ds)" using first by simp
  have n: "n = length (time ds)"
    using wf tin first sh by (simp add: wf_dataset_def size_of_def)
  note la = lat_axis [OF wf lat]
  have lrest: "lname \<in> set rest" using la(1,2) first by auto
  have ax: "axis_of lname (dims ds) = Suc ?q" using la(2) first by (simp add: axis_of_def)
  have q: "?q < length shp" "shp ! ?q = length lat"
    using axis_of_nth [OF lrest] len la(3) ax sh by simp_all
  have w: "lat_weights lat = map (\<lambda>x. Fin (cos (deg2rad x) / ?m)) lat"
    using lat_weights_normalised(1) [OF v] .
  have ne: "lat \<noteq> []" using valid_lat_nonempty [OF v] .
  have m: "?m \<noteq> 0" using valid_lat_sum_pos [OF v] ne by simp
  have Lpos: "all_indices shp \<noteq> []"
  proof -
    have "prod_list shp \<noteq> 0" using pos sh by (simp add: prod_list_zero_iff)
    then show ?thesis using length_all_indices [of shp] by auto
  qed
  have slab: "filter (\<lambda>ix. ix ! axis_of ''time'' (dims ds) = i) (all_indices (n # shp))
      = map (Cons i) (all_indices shp)"
    using slab_time_first [of i n shp] i n t0 by simp
  have A: "map (\<lambda>ix. fl_mul (data_at ds ix) (lat_weights lat ! (ix ! axis_of lname (dims ds))))
          (map (Cons i) (all_indices shp))
      = map (\<lambda>ix. Fin (f (i # ix) * (?c (ix ! ?q) / ?m))) (all_indices shp)"
    unfolding map_map
  proof (rule map_cong [OF refl])
    fix ix assume "ix \<in> set (all_indices shp)"
    then have b: "ix ! ?q < length lat" using all_indices_bounds [of ix shp] q by auto
    have "lat_weights lat ! (ix ! ?q) = Fin (?c (ix ! ?q) / ?m)"
      unfolding w using b by (rule nth_map)
    then show "((\<lambda>ix. fl_mul (data_at ds ix) (lat_weights lat ! (ix ! axis_of lname (dims ds))))
           \<circ> Cons i) ix = Fin (f (i # ix) * (?c (ix ! ?q) / ?m))"
      using fin by (simp only: comp_def ax nth_Cons_Suc fl_mul.simps)
  qed
  have B: "sum_list (map (\<lambda>ix. ?c (ix ! ?q)) (all_indices shp))
      = real (length (all_indices shp)) * ?m"
  proof -
    have "sum_list (map (\<lambda>ix. ?c (ix ! ?q)) (all_indices shp)) * real (length lat)
        = real (length (all_indices shp)) * sum_list (map ?c [0..<length lat])"
      using sum_over_axis [OF q(1), of ?c] by (simp only: q(2))
    also have "sum_list (map ?c [0..<length lat]) = sum_list (map (\<lambda>x. cos (deg2rad x)) lat)"
      by (rule sum_list_nth_upt)
    finally have "sum_list (map (\<lambda>ix. ?c (ix ! ?q)) (all_indices shp)) * real (length lat)
        = real (length (all_indices shp)) * sum_list (map (\<lambda>x. cos (deg2rad x)) lat)" .
    moreover have "real (length lat) \<noteq> 0" using ne by simp
    ultimately show ?thesis by (simp add: nonzero_eq_divide_eq)
  qed
  have C: "nanmean (map (\<lambda>ix. Fin (f (i # ix) * (?c (ix ! ?q) / ?m))) (all_indices shp))
      = Fin (sum_list (map (\<lambda>ix. f (i # ix) * ?c (ix ! ?q)) (all_indices shp))
              / sum_list (map (\<lambda>ix. ?c (ix ! ?q)) (all_indices shp)))"
    by (rule weighted_mean_core [OF Lpos m B])
  show ?thesis
    by (simp only: slab sh list.sel A C)
qed

text \<open>
  C3: for a dataset with a time dimension and a latitude coordinate under a recognised
  name, whose latitudes are valid, \<open>global_mean\<close> returns a dataset whose only dimension
  is time, with the length and the dates of the input's time axis and no other
  coordinate left. The weights are the cosines of the latitudes in radians divided by
  their mean, so their mean is 1. Each output value is the mean, over all indices of the
  dimensions other than time, of the field times the weight of its latitude. For a field
  without missing values on a grid with time as first dimension this is the sum of the
  field times the cosine of the latitude divided by the sum of the cosines: a weighted
  average, not a weighted sum.
\<close>

theorem global_mean_time_series:
  assumes wf: "wf_dataset ds" and t: "''time'' \<in> set (dims ds)"
    and lname: "get_lat_name ds = Inr lname" and lat: "map_of (coords ds) lname = Some lat"
    and v: "valid_lat lat"
  shows "\<exists>out. global_mean ds = Inr out
     \<and> dims out = [''time''] \<and> shape out = [length (time ds)] \<and> time out = time ds
     \<and> coords out = []
     \<and> lat_weights lat =
         map (\<lambda>x. Fin (cos (deg2rad x) /
               (sum_list (map (\<lambda>x. cos (deg2rad x)) lat) / real (length lat)))) lat
     \<and> nanmean (lat_weights lat) = Fin 1
     \<and> (\<forall>i. data_at out [i] =
           nanmean (map (\<lambda>ix. fl_mul (data_at ds ix)
                                 (lat_weights lat ! (ix ! axis_of lname (dims ds))))
              (filter (\<lambda>ix. ix ! axis_of ''time'' (dims ds) = i) (all_indices (shape ds)))))
     \<and> (\<forall>rest f. dims ds = ''time'' # rest \<and> 0 \<notin> set (shape ds)
             \<and> (\<forall>ix. data_at ds ix = Fin (f ix)) \<longrightarrow>
           (\<forall>i<length (time ds). data_at out [i] =
              Fin (sum_list (map (\<lambda>ix. f (i # ix) * cos (deg2rad (lat ! (ix ! axis_of lname rest))))
                      (all_indices (tl (shape ds))))
                   / sum_list (map (\<lambda>ix. cos (deg2rad (lat ! (ix ! axis_of lname rest))))
                      (all_indices (tl (shape ds)))))))"
proof -
  let ?out = "mean_over (set (dims ds) - {''time''}) (times_weight lname (lat_weights lat) ds)"
  note g = global_mean_shape [OF wf t lname lat]
  have d: "\<forall>i. data_at ?out [i] =
           nanmean (map (\<lambda>ix. fl_mul (data_at ds ix)
                                 (lat_weights lat ! (ix ! axis_of lname (dims ds))))
              (filter (\<lambda>ix. ix ! axis_of ''time'' (dims ds) = i) (all_indices (shape ds))))"
    using g(6) by blast
  have a: "\<forall>rest f. dims ds = ''time'' # rest \<and> 0 \<notin> set (shape ds)
             \<and> (\<forall>ix. data_at ds ix = Fin (f ix)) \<longrightarrow>
           (\<forall>i<length (time ds). data_at ?out [i] =
              Fin (sum_list (map (\<lambda>ix. f (i # ix) * cos (deg2rad (lat ! (ix ! axis_of lname rest))))
                      (all_indices (tl (shape ds))))
                   / sum_list (map (\<lambda>ix. cos (deg2rad (lat ! (ix ! axis_of lname rest))))
                      (all_indices (tl (shape ds))))))"
  proof (intro allI impI, elim conjE)
    fix rest f i
    assume "dims ds = ''time'' # rest" "0 \<notin> set (shape ds)" "\<forall>ix. data_at ds ix = Fin (f ix)"
      "i < length (time ds)"
    from global_mean_weighted_average [OF wf this(1) lat v this(2,3,4)]
    show "data_at ?out [i] =
              Fin (sum_list (map (\<lambda>ix. f (i # ix) * cos (deg2rad (lat ! (ix ! axis_of lname rest))))
                      (all_indices (tl (shape ds))))
                   / sum_list (map (\<lambda>ix. cos (deg2rad (lat ! (ix ! axis_of lname rest))))
                      (all_indices (tl (shape ds)))))"
      by (simp only: g(6))
  qed
  show ?thesis
    using g(1,2,3,4,5) lat_weights_normalised [OF v] d a
    by (intro exI [of _ ?out] conjI)
qed

lemma cos_deg_60: "cos (deg2rad 60) = 1 / 2" "cos (deg2rad (-60)) = 1 / 2" "cos (deg2rad 0) = 1"
proof -
  have a: "deg2rad 60 = pi / 3" and b: "deg2rad (-60) = - (pi / 3)" and c: "deg2rad 0 = 0"
    by (simp_all add: deg2rad_def)
  show "cos (deg2rad 60) = 1 / 2" unfolding a by (rule cos_60)
  show "cos (deg2rad (-60)) = 1 / 2" unfolding b cos_minus by (rule cos_60)
  show "cos (deg2rad 0) = 1" unfolding c by (rule cos_zero)
qed

lemma wf_grid_ds: "wf_dataset grid_ds"
  by (simp add: wf_dataset_def grid_ds_def size_of_def monthly_times_def)

lemma valid_lat_grid: "valid_lat [-60, 0, 60]"
  by (simp add: valid_lat_def)

theorem global_mean_time_series_witness:
  "wf_dataset grid_ds \<and> ''time'' \<in> set (dims grid_ds) \<and> get_lat_name grid_ds = Inr ''lat''
   \<and> map_of (coords grid_ds) ''lat'' = Some [-60, 0, 60] \<and> valid_lat [-60, 0, 60]
   \<and> (\<exists>out. global_mean grid_ds = Inr out \<and> dims out = [''time''] \<and> shape out = [2]
         \<and> data_at out [0] = Fin 1 \<and> data_at out [1] = Fin 11)"
proof -
  have h: "''time'' \<in> set (dims grid_ds)" "get_lat_name grid_ds = Inr ''lat''"
    "map_of (coords grid_ds) ''lat'' = Some [-60, 0, 60]"
    by (simp_all add: grid_ds_def get_lat_name_def)
  have first: "dims grid_ds = ''time'' # [''lat'', ''lon'']" "0 \<notin> set (shape grid_ds)"
    "\<forall>ix. data_at grid_ds ix = Fin (10 * real (ix ! 0) + real (ix ! 1))"
    "length (time grid_ds) = 2"
    by (simp_all add: grid_ds_def monthly_times_def)
  have idx: "all_indices (tl (shape grid_ds)) = [[0, 0], [0, 1], [1, 0], [1, 1], [2, 0], [2, 1]]"
    by (simp add: grid_ds_def all_indices_def upt_rec)
  have ax: "axis_of ''lat'' [''lat'', ''lon''] = 0"
    by (simp add: axis_of_def)
  obtain out where o: "global_mean grid_ds = Inr out" "dims out = [''time'']"
      "shape out = [length (time grid_ds)]"
    and avg: "\<forall>rest f. dims grid_ds = ''time'' # rest \<and> 0 \<notin> set (shape grid_ds)
             \<and> (\<forall>ix. data_at grid_ds ix = Fin (f ix)) \<longrightarrow>
           (\<forall>i<length (time grid_ds). data_at out [i] =
              Fin (sum_list (map (\<lambda>ix. f (i # ix) * cos (deg2rad ([-60, 0, 60] ! (ix ! axis_of ''lat'' rest))))
                      (all_indices (tl (shape grid_ds))))
                   / sum_list (map (\<lambda>ix. cos (deg2rad ([-60, 0, 60] ! (ix ! axis_of ''lat'' rest))))
                      (all_indices (tl (shape grid_ds))))))"
    using global_mean_time_series [OF wf_grid_ds h valid_lat_grid] by blast
  have v: "\<forall>i<2. data_at out [i] =
              Fin (sum_list (map (\<lambda>ix. (10 * real ((i # ix) ! 0) + real ((i # ix) ! 1))
                      * cos (deg2rad ([-60, 0, 60] ! (ix ! axis_of ''lat'' [''lat'', ''lon'']))))
                      (all_indices (tl (shape grid_ds))))
                   / sum_list (map (\<lambda>ix. cos (deg2rad ([-60, 0, 60] ! (ix ! axis_of ''lat'' [''lat'', ''lon'']))))
                      (all_indices (tl (shape grid_ds)))))"
    using avg [rule_format, of "[''lat'', ''lon'']" "\<lambda>ix. 10 * real (ix ! 0) + real (ix ! 1)"] first
    by simp
  have "data_at out [0] = Fin 1" "data_at out [1] = Fin 11"
    using v by (simp_all add: idx ax cos_deg_60)
  then show ?thesis
    using wf_grid_ds h valid_lat_grid o first(4) by auto
qed

section \<open>The pipeline on a one-cell dataset\<close>


lemma wf_cell_ds: "wf_dataset (cell_ds y0 vs)"
  by (simp add: wf_dataset_def cell_ds_def size_of_def monthly_times_def)

lemma valid_lat_0: "valid_lat [0]"
  by (simp add: valid_lat_def)

lemma global_mean_cell:
  assumes ne: "vs \<noteq> []"
  shows "then_do (global_mean (cell_ds y0 vs))
           (\<lambda>g. swap_dims_drop \<lparr>ds_of = g, year_coord = ys\<rparr>)
       = Inr \<lparr>syear = map real_of_int ys, sval = map Fin vs\<rparr>"
proof -
  let ?ds = "cell_ds y0 vs"
  let ?out = "mean_over (set (dims ?ds) - {''time''}) (times_weight ''lat'' (lat_weights [0]) ?ds)"
  have wf: "wf_dataset ?ds" using wf_cell_ds .
  have h: "''time'' \<in> set (dims ?ds)" "get_lat_name ?ds = Inr ''lat''"
    "map_of (coords ?ds) ''lat'' = Some [0]"
    by (simp_all add: cell_ds_def get_lat_name_def)
  note g = global_mean_shape [OF wf h]
  have first: "dims ?ds = ''time'' # [''lat'']" "0 \<notin> set (shape ?ds)"
    "\<forall>ix. data_at ?ds ix = Fin (vs ! (ix ! 0))" "length (time ?ds) = length vs"
    using ne by (simp_all add: cell_ds_def monthly_times_def)
  have idx: "all_indices (tl (shape (cell_ds y0 vs))) = [[0]]"
    by (simp add: cell_ds_def all_indices_def)
  have val: "\<forall>i<length vs. data_at ?out [i] = Fin (vs ! i)"
  proof (intro allI impI)
    fix i assume i: "i < length vs"
    then have i': "i < length (time ?ds)" using first(4) by simp
    show "data_at ?out [i] = Fin (vs ! i)"
      unfolding g(6) global_mean_weighted_average [OF wf first(1) h(3) valid_lat_0 first(2,3) i']
      by (simp add: idx cos_deg_60 axis_of_def)
  qed
  have "map (\<lambda>i. data_at ?out [i]) [0..<length vs] = map Fin vs"
  proof (rule nth_equalityI)
    show "length (map (\<lambda>i. data_at ?out [i]) [0..<length vs]) = length (map Fin vs)" by simp
  next
    fix i assume "i < length (map (\<lambda>i. data_at ?out [i]) [0..<length vs])"
    then have "i < length vs" by simp
    then show "map (\<lambda>i. data_at ?out [i]) [0..<length vs] ! i = map Fin vs ! i"
      using val by simp
  qed
  then have "swap_dims_drop \<lparr>ds_of = ?out, year_coord = ys\<rparr>
      = Inr \<lparr>syear = map real_of_int ys, sval = map Fin vs\<rparr>"
    using g(2,5) first(4) by (simp add: swap_dims_drop_def)
  then show ?thesis using g(1) by (simp add: then_do_def)
qed

lemma years12:
  "map ts_year (monthly_times y0 12) = [y0, y0, y0, y0, y0, y0, y0, y0, y0, y0, y0, y0]"
  by (simp add: monthly_times_def upt_rec)

lemma rebase_ecs_cell12:
  "length vs = 12 \<Longrightarrow>
   rebase_ecs (cell_ds y0 vs)
     = Inr \<lparr>ds_of = cell_ds y0 vs, year_coord = [0, 0, 0, 0, 0, 0, 0, 0, 0, 0, 0, 0]\<rparr>"
  using years12 [of y0] by (simp add: rebase_ecs_def cell_ds_def)

lemma rebase_gmst_cell12:
  "length vs = 12 \<Longrightarrow>
   rebase_gmst (cell_ds y0 vs)
     = Inr \<lparr>ds_of = cell_ds y0 vs,
            year_coord = [y0, y0, y0, y0, y0, y0, y0, y0, y0, y0, y0, y0]\<rparr>"
  using years12 [of y0] by (simp add: rebase_gmst_def cell_ds_def)

lemma ann_mean_cell12:
  "ann_mean \<lparr>ds_of = cell_ds y0 [v0, v1, v2, v3, v4, v5, v6, v7, v8, v9, v10, v11],
              year_coord = [y, y, y, y, y, y, y, y, y, y, y, y]\<rparr>
     = Inr \<lparr>syear = [real_of_int y],
            sval = [Fin ((v0 + v1 + v2 + v3 + v4 + v5 + v6 + v7 + v8 + v9 + v10 + v11) / 12)]\<rparr>"
proof -
  have g: "then_do (global_mean (cell_ds y0 [v0, v1, v2, v3, v4, v5, v6, v7, v8, v9, v10, v11]))
           (\<lambda>g. swap_dims_drop \<lparr>ds_of = g, year_coord = [y, y, y, y, y, y, y, y, y, y, y, y]\<rparr>)
       = Inr \<lparr>syear = map real_of_int [y, y, y, y, y, y, y, y, y, y, y, y],
              sval = map Fin [v0, v1, v2, v3, v4, v5, v6, v7, v8, v9, v10, v11]\<rparr>"
    by (rule global_mean_cell) simp
  show ?thesis
    unfolding ann_mean_def
    by (simp add: then_do_def g [unfolded then_do_def] coarsen_mean_def chunks_step
        nanmean_def mean_real_def block_mean_def)
qed

lemma ann_mean_ctl:
  "then_do (rebase_ecs ctl_ds) ann_mean = Inr \<lparr>syear = [0], sval = [Fin 281]\<rparr>"
  unfolding ctl_ds_def
  by (simp add: rebase_ecs_cell12 then_do_def ann_mean_cell12)

lemma ann_mean_co2:
  "then_do (rebase_ecs co2_ds) ann_mean = Inr \<lparr>syear = [0], sval = [Fin 284]\<rparr>"
  unfolding co2_ds_def
  by (simp add: rebase_ecs_cell12 then_do_def ann_mean_cell12)

lemma align_model_example:
  "align_model rebase_ecs JRight [''piControl'', co2_option]
     [(''piControl'', Some ctl_ds), (co2_option, Some co2_ds)]
   = Inr \<lparr>experiment_id = [''piControl'', co2_option], fyear = [0],
          rows = [[Fin 281], [Fin 284]]\<rparr>"
proof -
  obtain c where c: "rebase_ecs ctl_ds = Inr c" "ann_mean c = Inr \<lparr>syear = [0], sval = [Fin 281]\<rparr>"
    using ann_mean_ctl by (cases "rebase_ecs ctl_ds") (simp_all add: then_do_def)
  obtain d where d: "rebase_ecs co2_ds = Inr d" "ann_mean d = Inr \<lparr>syear = [0], sval = [Fin 284]\<rparr>"
    using ann_mean_co2 by (cases "rebase_ecs co2_ds") (simp_all add: then_do_def)
  show ?thesis
    by (simp add: align_model_def present_def then_do_def c d lookup_expt_def co2_option_def
        concat_join_def)
qed

section \<open>Facts about the alignment loop\<close>

lemma align_step_missing:
  "list_ex (\<lambda>ed. snd ed = None) v \<Longrightarrow>
     align_step rebase j expts st (k, v) = Inr (st\<lparr>messages := messages st @ [missing_line k]\<rparr>)"
  by (simp add: align_step_def)

lemma align_step_complete:
  "\<not> list_ex (\<lambda>ed. snd ed = None) v \<Longrightarrow>
     align_step rebase j expts st (k, v) =
       (case align_model rebase j expts v of
          Inl e \<Rightarrow> Inl e
        | Inr f \<Rightarrow> Inr (st\<lparr>dsets_aligned := (dsets_aligned st)(k \<mapsto> f)\<rparr>))"
  by (simp add: align_step_def then_do_def)

lemma traverse_Inr:
  "traverse f xs = Inr ys \<Longrightarrow> length ys = length xs \<and> (\<forall>i<length xs. f (xs ! i) = Inr (ys ! i))"
proof (induction xs arbitrary: ys)
  case Nil
  then show ?case by simp
next
  case (Cons x xs)
  then obtain y ys' where y: "f x = Inr y" and t: "traverse f xs = Inr ys'" and e: "ys = y # ys'"
    by (auto split: sum.splits)
  have "length ys' = length xs \<and> (\<forall>i<length xs. f (xs ! i) = Inr (ys' ! i))"
    using Cons.IH [OF t] .
  then show ?case using y e by (auto simp: nth_Cons split: nat.splits)
qed


lemma then_do_Inr: "then_do r f = Inr y \<Longrightarrow> \<exists>x. r = Inr x \<and> f x = Inr y"
  by (cases r) (simp_all add: then_do_def)



lemma align_loop_inv:
  assumes "align_loop rebase j expts models st = Inr st'"
  shows "messages st' = messages st @ map (\<lambda>kv. missing_line (fst kv)) (filter excluded models)
     \<and> (\<forall>k. k \<notin> fst ` set (filter (\<lambda>kv. \<not> excluded kv) models)
            \<longrightarrow> dsets_aligned st' k = dsets_aligned st k)
     \<and> (\<forall>k f. dsets_aligned st' k = Some f \<longrightarrow>
            dsets_aligned st k = Some f
            \<or> (\<exists>v. (k, v) \<in> set models \<and> align_model rebase j expts v = Inr f))"
  using assms
proof (induction models arbitrary: st)
  case Nil
  then show ?case by simp
next
  case (Cons kv rest)
  obtain k v where kv: "kv = (k, v)" by (cases kv)
  obtain st1 where s1: "align_step rebase j expts st (k, v) = Inr st1"
    and l: "align_loop rebase j expts rest st1 = Inr st'"
    using Cons.prems kv by (auto split: sum.splits)
  note ih = Cons.IH [OF l]
  show ?case
  proof (cases "excluded kv")
    case True
    then have "st1 = st\<lparr>messages := messages st @ [missing_line k]\<rparr>"
      using s1 kv align_step_missing [of v rebase j expts st k] by (simp add: excluded_def)
    then show ?thesis using ih True kv by auto
  next
    case False
    then obtain f where f: "align_model rebase j expts v = Inr f"
      and st1: "st1 = st\<lparr>dsets_aligned := (dsets_aligned st)(k \<mapsto> f)\<rparr>"
      using s1 kv align_step_complete [of v rebase j expts st k]
      by (auto simp: excluded_def split: sum.splits)
    show ?thesis
    proof (intro conjI allI impI)
      show "messages st' = messages st @ map (\<lambda>kv. missing_line (fst kv)) (filter excluded (kv # rest))"
        using ih False st1 by simp
    next
      fix k' assume "k' \<notin> fst ` set (filter (\<lambda>kv. \<not> excluded kv) (kv # rest))"
      then have "k' \<noteq> k" "k' \<notin> fst ` set (filter (\<lambda>kv. \<not> excluded kv) rest)"
        using False kv by auto
      then show "dsets_aligned st' k' = dsets_aligned st k'"
        using ih st1 by simp
    next
      fix k' f' assume a: "dsets_aligned st' k' = Some f'"
      then consider "dsets_aligned st1 k' = Some f'"
        | "\<exists>v. (k', v) \<in> set rest \<and> align_model rebase j expts v = Inr f'"
        using ih by blast
      then show "dsets_aligned st k' = Some f'
            \<or> (\<exists>v. (k', v) \<in> set (kv # rest) \<and> align_model rebase j expts v = Inr f')"
      proof cases
        case 1
        then show ?thesis using st1 f kv by (cases "k' = k") auto
      next
        case 2
        then show ?thesis by auto
      qed
    qed
  qed
qed




lemma rebased_map_of:
  assumes "traverse (\<lambda>ed. then_do (rebase (snd ed)) (\<lambda>ds. Inr (fst ed, ds))) pv = Inr v'"
  shows "(map_of v' e = None \<longleftrightarrow> map_of pv e = None)
     \<and> (\<forall>dy. map_of v' e = Some dy \<longrightarrow> (\<exists>ds. map_of pv e = Some ds \<and> rebase ds = Inr dy))"
  using assms
proof (induction pv arbitrary: v')
  case Nil
  then show ?case by simp
next
  case (Cons ed pv)
  obtain p ps where p: "then_do (rebase (snd ed)) (\<lambda>ds. Inr (fst ed, ds)) = Inr p"
    and ps: "traverse (\<lambda>ed. then_do (rebase (snd ed)) (\<lambda>ds. Inr (fst ed, ds))) pv = Inr ps"
    and v': "v' = p # ps"
    using Cons.prems by (auto split: sum.splits)
  obtain dy where dy: "rebase (snd ed) = Inr dy" "p = (fst ed, dy)"
    using then_do_Inr [OF p] by auto
  note ih = Cons.IH [OF ps]
  show ?case
  proof (cases "fst ed = e")
    case True
    then show ?thesis using v' dy by (cases ed) auto
  next
    case False
    then show ?thesis using v' dy ih by (cases ed) auto
  qed
qed








section \<open>A batch of three models in ecs-cmip6.ipynb\<close>

text \<open>
  C9 (as stated) fails in ecs-cmip6.ipynb: of three models, the second has two stores
  for its control run whose merge raises ValueError. The batch ends with two models
  aligned and the single line \<^verbatim>\<open>Missing experiment for MODEL-B\<close> printed: no summary of
  how many of the three models succeeded is produced, nothing is counted, and the reason
  of the merge failure is gone.
\<close>

theorem ecs_batch_no_summary_counterexample:
  "ecs_batch (\<lambda>dsets. case dsets of [d] \<Rightarrow> Inr d
                          | other \<Rightarrow> Inl (ValueError ''conflicting values for variable height''))
     [(''MODEL-A'', [(''piControl'', [ctl_ds]), (co2_option, [co2_ds])]),
      (''MODEL-B'', [(''piControl'', [ctl_ds, ctl_ds]), (co2_option, [co2_ds])]),
      (''MODEL-C'', [(''piControl'', [ctl_ds]), (co2_option, [co2_ds])])]
   = Inr \<lparr>dsets_aligned =
            [''MODEL-A'' \<mapsto> \<lparr>experiment_id = [''piControl'', co2_option], fyear = [0],
                               rows = [[Fin 281], [Fin 284]]\<rparr>,
             ''MODEL-C'' \<mapsto> \<lparr>experiment_id = [''piControl'', co2_option], fyear = [0],
                               rows = [[Fin 281], [Fin 284]]\<rparr>],
          messages = [''Missing experiment for MODEL-B'']\<rparr>"
  by (simp add: ecs_batch_def then_do_def open_dsets_def ecs_align_def align_step_def
      align_init_def missing_line_def align_model_example)

section \<open>Facts about the frames of the two alignment loops\<close>

lemma global_mean_time: "global_mean ds = Inr g \<Longrightarrow> time g = time ds"
  by (auto simp: global_mean_def mean_over_def times_weight_def split: sum.splits option.splits)

lemma coarsen_mean_lengths:
  assumes "coarsen_mean w s = Inr s'" and "0 < w" and "length (sval s) = length (syear s)"
  shows "length (sval s') = length (syear s')"
proof -
  have m: "length (sval s) mod w = 0"
    and s': "s' = \<lparr>syear = map block_mean (chunks w (syear s)),
                    sval = map nanmean (chunks w (sval s))\<rparr>"
    using assms(1) by (auto simp: coarsen_mean_def split: if_splits)
  from m obtain n where n: "length (sval s) = w * n" by auto
  have "length (chunks w (sval s)) = n" using chunks_length [OF assms(2) n] .
  moreover have "length (chunks w (syear s)) = n"
    using chunks_length [OF assms(2), of "syear s" n] n assms(3) by simp
  ultimately show ?thesis using s' by simp
qed

lemma ann_mean_lengths:
  assumes "ann_mean dy = Inr s" and "length (year_coord dy) = length (time (ds_of dy))"
  shows "length (sval s) = length (syear s)"
proof -
  obtain s0 where s0: "then_do (global_mean (ds_of dy))
        (\<lambda>g. swap_dims_drop \<lparr>ds_of = g, year_coord = year_coord dy\<rparr>) = Inr s0"
    and c: "coarsen_mean 12 s0 = Inr s"
    using then_do_Inr [OF assms(1) [unfolded ann_mean_def]] by blast
  obtain g where g: "global_mean (ds_of dy) = Inr g"
    and sw: "swap_dims_drop \<lparr>ds_of = g, year_coord = year_coord dy\<rparr> = Inr s0"
    using then_do_Inr [OF s0] by blast
  have "time g = time (ds_of dy)" using global_mean_time [OF g] .
  then have "length (sval s0) = length (syear s0)"
    using sw assms(2) by (auto simp: swap_dims_drop_def split: if_splits)
  then show ?thesis using coarsen_mean_lengths [OF c] by simp
qed

lemma rebase_lengths:
  "rebase_ecs ds = Inr dy \<Longrightarrow> length (year_coord dy) = length (time (ds_of dy))"
  "rebase_gmst ds = Inr dy \<Longrightarrow> length (year_coord dy) = length (time (ds_of dy))"
  by (auto simp: rebase_ecs_def rebase_gmst_def split: list.splits)

lemma align_model_series:
  assumes "align_model rebase j expts v = Inr f"
  shows "\<exists>ss. length ss = length expts
     \<and> (\<forall>i<length expts. \<exists>ds. map_of (present v) (expts ! i) = Some ds
            \<and> then_do (rebase ds) ann_mean = Inr (ss ! i))
     \<and> concat_join j expts ss = Inr f"
proof -
  obtain v' where v': "traverse (\<lambda>ed. then_do (rebase (snd ed)) (\<lambda>ds. Inr (fst ed, ds))) (present v) = Inr v'"
    and r: "then_do (traverse (\<lambda>expt. then_do (lookup_expt v' expt) ann_mean) expts)
                (concat_join j expts) = Inr f"
    using then_do_Inr [OF assms [unfolded align_model_def]] by blast
  obtain ss where ss: "traverse (\<lambda>expt. then_do (lookup_expt v' expt) ann_mean) expts = Inr ss"
    and c: "concat_join j expts ss = Inr f"
    using then_do_Inr [OF r] by blast
  have l: "length ss = length expts"
    and a: "\<forall>i<length expts. then_do (lookup_expt v' (expts ! i)) ann_mean = Inr (ss ! i)"
    using traverse_Inr [OF ss] by simp_all
  have "\<forall>i<length expts. \<exists>ds. map_of (present v) (expts ! i) = Some ds
            \<and> then_do (rebase ds) ann_mean = Inr (ss ! i)"
  proof (intro allI impI)
    fix i assume "i < length expts"
    then have "then_do (lookup_expt v' (expts ! i)) ann_mean = Inr (ss ! i)" using a by simp
    from then_do_Inr [OF this] obtain dy where dy: "lookup_expt v' (expts ! i) = Inr dy"
      and am: "ann_mean dy = Inr (ss ! i)" by blast
    have "map_of v' (expts ! i) = Some dy"
      using dy by (simp add: lookup_expt_def split: option.splits)
    then obtain ds where "map_of (present v) (expts ! i) = Some ds" "rebase ds = Inr dy"
      using rebased_map_of [OF v', of "expts ! i"] by blast
    then show "\<exists>ds. map_of (present v) (expts ! i) = Some ds
            \<and> then_do (rebase ds) ann_mean = Inr (ss ! i)"
      using am by (simp add: then_do_def)
  qed
  then show ?thesis using l c by blast
qed

text \<open>
  C8: every frame that the loop of ecs-cmip6.ipynb stores comes from a model of the
  batch and from the annual series of its experiments, control run first and forcing
  experiment last, and has exactly the year labels of the series of the forcing
  experiment (\<^verbatim>\<open>join='right'\<close>), so that the years of the control run beyond them are
  dropped. Every frame that the loop of the surface temperature notebook stores comes
  from the annual series of the historical run and the two scenarios and has the union
  of their year labels (\<^verbatim>\<open>join='outer'\<close>). In both, the row of an experiment has the
  values of its series when the labels of the series are those of the frame, and
  otherwise, at each label of the frame, the value the series has at that label and NaN,
  not zero, when the series does not have the label.
\<close>

theorem stacking_join_policy:
  assumes pipeline:
      "ecs_align dsets = Inr st \<and> rebase = rebase_ecs \<and> j = JRight
         \<and> expts = [''piControl'', co2_option]
       \<or> gmst_align dsets = Inr st \<and> rebase = rebase_gmst \<and> j = JOuter
         \<and> expts = [''historical'', ''ssp245'', ''ssp585'']"
    and stored: "dsets_aligned st k = Some f"
  shows "\<exists>v ss. (k, v) \<in> set dsets \<and> length ss = length expts
       \<and> (\<forall>i<length expts. \<exists>ds. map_of (present v) (expts ! i) = Some ds
              \<and> then_do (rebase ds) ann_mean = Inr (ss ! i))
       \<and> experiment_id f = expts
       \<and> (j = JRight \<longrightarrow> fyear f = syear (last ss) \<and> last ss = ss ! (length expts - 1))
       \<and> (j = JOuter \<longrightarrow> set (fyear f) = (\<Union>s\<in>set ss. set (syear s)))
       \<and> rows f = map (aligned_row (fyear f)) ss
       \<and> (\<forall>s\<in>set ss. syear s = fyear f \<or> distinct (syear s))
       \<and> (\<forall>s\<in>set ss. \<forall>y. y \<notin> set (syear s) \<longrightarrow> value_at_year s y = NaN \<and> NaN \<noteq> Fin 0)
       \<and> (\<forall>s\<in>set ss. distinct (syear s) \<longrightarrow>
             (\<forall>n<length (syear s). value_at_year s (syear s ! n) = sval s ! n))"
proof -
  have loop: "align_loop rebase j expts dsets align_init = Inr st"
    and rb: "rebase = rebase_ecs \<or> rebase = rebase_gmst"
    using pipeline unfolding ecs_align_def gmst_align_def by (elim disjE conjE; simp)+
  obtain v where v: "(k, v) \<in> set dsets" and am: "align_model rebase j expts v = Inr f"
    using align_loop_inv [OF loop] stored by (simp add: align_init_def) blast
  obtain ss where l: "length ss = length expts"
    and a: "\<forall>i<length expts. \<exists>ds. map_of (present v) (expts ! i) = Some ds
            \<and> then_do (rebase ds) ann_mean = Inr (ss ! i)"
    and c: "concat_join j expts ss = Inr f"
    using align_model_series [OF am] by blast
  have wf: "\<forall>s\<in>set ss. length (sval s) = length (syear s)"
  proof
    fix s assume "s \<in> set ss"
    then obtain i where i: "i < length expts" "ss ! i = s" using l by (auto simp: in_set_conv_nth)
    then obtain ds where "then_do (rebase ds) ann_mean = Inr s" using a by auto
    from then_do_Inr [OF this] obtain dy where dy: "rebase ds = Inr dy" "ann_mean dy = Inr s"
      by blast
    have "length (year_coord dy) = length (time (ds_of dy))"
      using rb dy(1) rebase_lengths by blast
    then show "length (sval s) = length (syear s)" using ann_mean_lengths [OF dy(2)] by simp
  qed
  note r = concat_join_Inr_rows [OF c wf]
  have right: "j = JRight \<longrightarrow> fyear f = syear (last ss) \<and> last ss = ss ! (length expts - 1)"
    using r(1,3) joined_index_right [OF r(1)] l by (simp add: last_conv_nth)
  have outer: "j = JOuter \<longrightarrow> set (fyear f) = (\<Union>s\<in>set ss. set (syear s))"
    using r(3) joined_index_outer_set [of ss] by simp
  have absent: "\<forall>s\<in>set ss. \<forall>y. y \<notin> set (syear s) \<longrightarrow> value_at_year s y = NaN \<and> NaN \<noteq> Fin 0"
    by (simp add: value_at_year_absent)
  have there: "\<forall>s\<in>set ss. distinct (syear s) \<longrightarrow>
             (\<forall>n<length (syear s). value_at_year s (syear s ! n) = sval s ! n)"
    using wf by (simp add: value_at_year_present)
  show ?thesis
    using v l a r(2) right outer r(4) r(5) absent there by blast
qed

lemma rebase_ecs_cell24:
  "length vs = 24 \<Longrightarrow>
   rebase_ecs (cell_ds y0 vs)
     = Inr \<lparr>ds_of = cell_ds y0 vs,
            year_coord = [0, 0, 0, 0, 0, 0, 0, 0, 0, 0, 0, 0, 1, 1, 1, 1, 1, 1, 1, 1, 1, 1, 1, 1]\<rparr>"
proof -
  have "map ts_year (monthly_times y0 24)
      = [y0, y0, y0, y0, y0, y0, y0, y0, y0, y0, y0, y0,
         y0 + 1, y0 + 1, y0 + 1, y0 + 1, y0 + 1, y0 + 1,
         y0 + 1, y0 + 1, y0 + 1, y0 + 1, y0 + 1, y0 + 1]"
    by (simp add: monthly_times_def upt_rec)
  then show "length vs = 24 \<Longrightarrow> ?thesis"
    by (simp add: rebase_ecs_def cell_ds_def)
qed

lemma ann_mean_ctl2:
  "then_do (rebase_ecs ctl2_ds) ann_mean = Inr \<lparr>syear = [0, 1], sval = [Fin 280, Fin 282]\<rparr>"
proof -
  let ?vs = "[280, 280, 280, 280, 280, 280, 280, 280, 280, 280, 280, 280,
              282, 282, 282, 282, 282, 282, 282, 282, 282, 282, 282, 282 :: real]"
  let ?ys = "[0, 0, 0, 0, 0, 0, 0, 0, 0, 0, 0, 0, 1, 1, 1, 1, 1, 1, 1, 1, 1, 1, 1, 1 :: int]"
  have r: "rebase_ecs ctl2_ds = Inr \<lparr>ds_of = ctl2_ds, year_coord = ?ys\<rparr>"
    unfolding ctl2_ds_def by (rule rebase_ecs_cell24) simp
  have g: "then_do (global_mean (cell_ds 1850 ?vs))
           (\<lambda>g. swap_dims_drop \<lparr>ds_of = g, year_coord = ?ys\<rparr>)
       = Inr \<lparr>syear = map real_of_int ?ys, sval = map Fin ?vs\<rparr>"
    by (rule global_mean_cell) simp
  have "ann_mean \<lparr>ds_of = ctl2_ds, year_coord = ?ys\<rparr>
      = Inr \<lparr>syear = [0, 1], sval = [Fin 280, Fin 282]\<rparr>"
    unfolding ann_mean_def ctl2_ds_def
    by (simp add: then_do_def g [unfolded then_do_def] coarsen_mean_def chunks_step
        nanmean_def mean_real_def block_mean_def)
  then show ?thesis using r by (simp add: then_do_def)
qed

lemma ann_mean_gmst_examples:
  "then_do (rebase_gmst hist_ds) ann_mean = Inr \<lparr>syear = [2014], sval = [Fin 287]\<rparr>"
  "then_do (rebase_gmst ssp245_ds) ann_mean = Inr \<lparr>syear = [2015], sval = [Fin 288]\<rparr>"
  "then_do (rebase_gmst ssp585_ds) ann_mean = Inr \<lparr>syear = [2015], sval = [Fin 289]\<rparr>"
  unfolding hist_ds_def ssp245_ds_def ssp585_ds_def
  by (simp_all add: rebase_gmst_cell12 then_do_def ann_mean_cell12)

lemma ecs_align_example:
  "ecs_align [(''MODEL'', [(''piControl'', Some ctl2_ds), (co2_option, Some co2_ds)])]
     = Inr \<lparr>dsets_aligned =
              [''MODEL'' \<mapsto> \<lparr>experiment_id = [''piControl'', co2_option], fyear = [0],
                               rows = [[Fin 280], [Fin 284]]\<rparr>],
            messages = []\<rparr>"
proof -
  obtain c where c: "rebase_ecs ctl2_ds = Inr c"
      "ann_mean c = Inr \<lparr>syear = [0, 1], sval = [Fin 280, Fin 282]\<rparr>"
    using ann_mean_ctl2 by (cases "rebase_ecs ctl2_ds") (simp_all add: then_do_def)
  obtain d where d: "rebase_ecs co2_ds = Inr d" "ann_mean d = Inr \<lparr>syear = [0], sval = [Fin 284]\<rparr>"
    using ann_mean_co2 by (cases "rebase_ecs co2_ds") (simp_all add: then_do_def)
  show ?thesis
    by (simp add: ecs_align_def align_step_def align_init_def align_model_def present_def
        then_do_def c d lookup_expt_def co2_option_def concat_join_def reindex_def
        value_at_year_def)
qed

lemma gmst_align_example:
  "gmst_align [(''MODEL'', [(''historical'', Some hist_ds), (''ssp245'', Some ssp245_ds),
                            (''ssp585'', Some ssp585_ds)])]
     = Inr \<lparr>dsets_aligned =
              [''MODEL'' \<mapsto> \<lparr>experiment_id = [''historical'', ''ssp245'', ''ssp585''],
                               fyear = [2014, 2015],
                               rows = [[Fin 287, NaN], [NaN, Fin 288], [NaN, Fin 289]]\<rparr>],
            messages = []\<rparr>"
proof -
  obtain h where h: "rebase_gmst hist_ds = Inr h"
      "ann_mean h = Inr \<lparr>syear = [2014], sval = [Fin 287]\<rparr>"
    using ann_mean_gmst_examples(1)
    by (cases "rebase_gmst hist_ds") (simp_all add: then_do_def)
  obtain a where a: "rebase_gmst ssp245_ds = Inr a"
      "ann_mean a = Inr \<lparr>syear = [2015], sval = [Fin 288]\<rparr>"
    using ann_mean_gmst_examples(2)
    by (cases "rebase_gmst ssp245_ds") (simp_all add: then_do_def)
  obtain b where b: "rebase_gmst ssp585_ds = Inr b"
      "ann_mean b = Inr \<lparr>syear = [2015], sval = [Fin 289]\<rparr>"
    using ann_mean_gmst_examples(3)
    by (cases "rebase_gmst ssp585_ds") (simp_all add: then_do_def)
  show ?thesis
    by (simp add: gmst_align_def align_step_def align_init_def align_model_def present_def
        then_do_def h a b lookup_expt_def concat_join_def reindex_def
        value_at_year_def idx_union_def)
qed

theorem stacking_join_policy_witness:
  "ecs_align [(''MODEL'', [(''piControl'', Some ctl2_ds), (co2_option, Some co2_ds)])]
     = Inr \<lparr>dsets_aligned =
              [''MODEL'' \<mapsto> \<lparr>experiment_id = [''piControl'', co2_option], fyear = [0],
                               rows = [[Fin 280], [Fin 284]]\<rparr>],
            messages = []\<rparr>
   \<and> (\<exists>v ss. (''MODEL'', v)
                 \<in> set [(''MODEL'', [(''piControl'', Some ctl2_ds), (co2_option, Some co2_ds)])]
          \<and> length ss = 2
          \<and> then_do (rebase_ecs ctl2_ds) ann_mean = Inr (ss ! 0)
          \<and> then_do (rebase_ecs co2_ds) ann_mean = Inr (ss ! 1)
          \<and> [0] = syear (last ss) \<and> last ss = ss ! 1
          \<and> [[Fin 280], [Fin 284]] = map (aligned_row [0]) ss)
   \<and> gmst_align [(''MODEL'', [(''historical'', Some hist_ds), (''ssp245'', Some ssp245_ds),
                            (''ssp585'', Some ssp585_ds)])]
     = Inr \<lparr>dsets_aligned =
              [''MODEL'' \<mapsto> \<lparr>experiment_id = [''historical'', ''ssp245'', ''ssp585''],
                               fyear = [2014, 2015],
                               rows = [[Fin 287, NaN], [NaN, Fin 288], [NaN, Fin 289]]\<rparr>],
            messages = []\<rparr>
   \<and> (\<exists>v ss. (''MODEL'', v)
                 \<in> set [(''MODEL'', [(''historical'', Some hist_ds), (''ssp245'', Some ssp245_ds),
                            (''ssp585'', Some ssp585_ds)])]
          \<and> length ss = 3
          \<and> set [2014, 2015] = (\<Union>s\<in>set ss. set (syear s))
          \<and> [[Fin 287, NaN], [NaN, Fin 288], [NaN, Fin 289]] = map (aligned_row [2014, 2015]) ss)"
  (is "ecs_align ?DE = Inr ?SE \<and> ?XE \<and> gmst_align ?DG = Inr ?SG \<and> ?XG")
proof -
  let ?FE = "\<lparr>experiment_id = [''piControl'', co2_option], fyear = [0],
               rows = [[Fin 280], [Fin 284]]\<rparr>"
  let ?FG = "\<lparr>experiment_id = [''historical'', ''ssp245'', ''ssp585''], fyear = [2014, 2015],
               rows = [[Fin 287, NaN], [NaN, Fin 288], [NaN, Fin 289]]\<rparr>"
  have pe: "ecs_align ?DE = Inr ?SE \<and> rebase_ecs = rebase_ecs \<and> JRight = JRight
         \<and> [''piControl'', co2_option] = [''piControl'', co2_option]
       \<or> gmst_align ?DE = Inr ?SE \<and> rebase_ecs = rebase_gmst \<and> JRight = JOuter
         \<and> [''piControl'', co2_option] = [''historical'', ''ssp245'', ''ssp585'']"
    using ecs_align_example by (intro disjI1 conjI refl)
  have se: "dsets_aligned ?SE ''MODEL'' = Some ?FE" by simp
  obtain v ss where e: "(''MODEL'', v) \<in> set ?DE" "length ss = length [''piControl'', co2_option]"
    "\<forall>i<length [''piControl'', co2_option].
        \<exists>ds. map_of (present v) ([''piControl'', co2_option] ! i) = Some ds
              \<and> then_do (rebase_ecs ds) ann_mean = Inr (ss ! i)"
    "JRight = JRight \<longrightarrow> fyear ?FE = syear (last ss)
        \<and> last ss = ss ! (length [''piControl'', co2_option] - 1)"
    "rows ?FE = map (aligned_row (fyear ?FE)) ss"
    using stacking_join_policy [OF pe se] by (elim exE conjE)
  have ve: "v = [(''piControl'', Some ctl2_ds), (co2_option, Some co2_ds)]" using e(1) by simp
  have s0: "then_do (rebase_ecs ctl2_ds) ann_mean = Inr (ss ! 0)"
    using e(3) [rule_format, of 0] unfolding ve by (simp add: present_def)
  have s1: "then_do (rebase_ecs co2_ds) ann_mean = Inr (ss ! 1)"
    using e(3) [rule_format, of 1] unfolding ve by (simp add: present_def co2_option_def)
  have xe: ?XE
    using e(1,2,4,5) s0 s1 by (intro exI [of _ v] exI [of _ ss]) simp
  have pg: "ecs_align ?DG = Inr ?SG \<and> rebase_gmst = rebase_ecs \<and> JOuter = JRight
         \<and> [''historical'', ''ssp245'', ''ssp585''] = [''piControl'', co2_option]
       \<or> gmst_align ?DG = Inr ?SG \<and> rebase_gmst = rebase_gmst \<and> JOuter = JOuter
         \<and> [''historical'', ''ssp245'', ''ssp585''] = [''historical'', ''ssp245'', ''ssp585'']"
    using gmst_align_example by (intro disjI2 conjI refl)
  have sg: "dsets_aligned ?SG ''MODEL'' = Some ?FG" by simp
  obtain w ts where g: "(''MODEL'', w) \<in> set ?DG"
    "length ts = length [''historical'', ''ssp245'', ''ssp585'']"
    "JOuter = JOuter \<longrightarrow> set (fyear ?FG) = (\<Union>s\<in>set ts. set (syear s))"
    "rows ?FG = map (aligned_row (fyear ?FG)) ts"
    using stacking_join_policy [OF pg sg] by (elim exE conjE)
  have xg: ?XG
    using g by (intro exI [of _ w] exI [of _ ts]) simp
  show ?thesis
    using ecs_align_example xe gmst_align_example xg by (intro conjI)
qed

section \<open>Facts about the sensitivity estimate\<close>




















section \<open>Facts about the removal of missing values before the fit\<close>









end
